theory Spec2Isabelle
  imports Main
begin

section \<open>Path strings (the POSIX flavour of os.path and pathlib)\<close>

text \<open>
  Paths are Python strings, modelled as \<open>string\<close>. The functions below follow
  \<^verbatim>\<open>posixpath\<close>, \<^verbatim>\<open>genericpath\<close> and \<^verbatim>\<open>pathlib\<close> of CPython 3.8 to 3.12, which
  the script uses through \<^verbatim>\<open>os.path\<close> and \<^verbatim>\<open>Path\<close>.
\<close>

type_synonym path = string
type_synonym bytes = "char list"

definition sep :: char where
  "sep = CHR ''/''"

definition dot :: char where
  "dot = CHR ''.''"

text \<open>\<^verbatim>\<open>s.split('/')\<close>: the pieces between separators, empty pieces kept.\<close>

fun split_sep :: "string \<Rightarrow> string list" where
  "split_sep [] = [[]]"
| "split_sep (c # cs) =
     (if c = sep then [] # split_sep cs
      else (case split_sep cs of [] \<Rightarrow> [[c]] | x # xs \<Rightarrow> (c # x) # xs))"

text \<open>\<^verbatim>\<open>'/'.join(xs)\<close>.\<close>

fun sep_join :: "string list \<Rightarrow> string" where
  "sep_join [] = []"
| "sep_join [x] = x"
| "sep_join (x # y # ys) = x @ sep # sep_join (y # ys)"

text \<open>\<^verbatim>\<open>p[:p.rfind(c) + 1]\<close> and \<^verbatim>\<open>p[p.rfind(c) + 1:]\<close>.\<close>

definition upto_last :: "char \<Rightarrow> string \<Rightarrow> string" where
  "upto_last c p = rev (dropWhile (\<lambda>x. x \<noteq> c) (rev p))"

definition after_last :: "char \<Rightarrow> string \<Rightarrow> string" where
  "after_last c p = rev (takeWhile (\<lambda>x. x \<noteq> c) (rev p))"

definition rstrip_sep :: "string \<Rightarrow> string" where
  "rstrip_sep s = rev (dropWhile (\<lambda>x. x = sep) (rev s))"

definition startswith_sep :: "string \<Rightarrow> bool" where
  "startswith_sep p = (case p of [] \<Rightarrow> False | c # _ \<Rightarrow> c = sep)"

definition endswith_sep :: "string \<Rightarrow> bool" where
  "endswith_sep p = (p \<noteq> [] \<and> last p = sep)"

text \<open>\<^verbatim>\<open>os.path.join(a, b)\<close>.\<close>

definition path_join :: "path \<Rightarrow> path \<Rightarrow> path" where
  "path_join a b =
     (if startswith_sep b then b
      else if a = [] \<or> endswith_sep a then a @ b
      else a @ sep # b)"

text \<open>\<^verbatim>\<open>os.path.join(*xs)\<close> for a non-empty argument list.\<close>

fun path_join_list :: "path \<Rightarrow> path list \<Rightarrow> path" where
  "path_join_list a [] = a"
| "path_join_list a (b # bs) = path_join_list (path_join a b) bs"

text \<open>\<^verbatim>\<open>os.path.dirname(p)\<close>.\<close>

definition dirname :: "path \<Rightarrow> path" where
  "dirname p =
     (let head = upto_last sep p
      in if head \<noteq> [] \<and> (\<exists>c \<in> set head. c \<noteq> sep) then rstrip_sep head else head)"

text \<open>
  \<^verbatim>\<open>os.path.splitext(p)\<close>: the extension starts at the last dot of the last component,
  unless only dots precede that dot in the component; then there is no extension.
\<close>

definition splitext :: "path \<Rightarrow> path \<times> string" where
  "splitext p =
     (let name = after_last sep p
      in if dot \<in> set name \<and> (\<exists>c \<in> set (butlast (upto_last dot name)). c \<noteq> dot)
         then (take (length p - Suc (length (after_last dot name))) p,
               dot # after_last dot name)
         else (p, []))"

text \<open>
  \<^verbatim>\<open>Path(name).suffix\<close> for a bare file name: with \<open>i\<close> the index of the last dot,
  \<^verbatim>\<open>name[i:]\<close> when \<open>0 < i < len(name) - 1\<close>, and the empty string otherwise.
\<close>

definition path_suffix :: "string \<Rightarrow> string" where
  "path_suffix name =
     (if dot \<in> set name \<and> 1 < length (upto_last dot name) \<and> after_last dot name \<noteq> []
      then dot # after_last dot name else [])"

text \<open>\<^verbatim>\<open>str.lower()\<close> on the ASCII letters; every other byte is kept.\<close>

definition lower_char :: "char \<Rightarrow> char" where
  "lower_char c =
     (case map_of (zip ''ABCDEFGHIJKLMNOPQRSTUVWXYZ'' ''abcdefghijklmnopqrstuvwxyz'') c of
        None \<Rightarrow> c | Some d \<Rightarrow> d)"

definition lower :: "string \<Rightarrow> string" where
  "lower s = map lower_char s"

text \<open>
  \<^verbatim>\<open>os.path.normpath\<close> on the components of an absolute path: empty and \<^verbatim>\<open>.\<close>
  components are dropped, \<^verbatim>\<open>..\<close> removes the component before it (and is dropped at
  the root).
\<close>

fun norm_comps :: "string list \<Rightarrow> string list \<Rightarrow> string list" where
  "norm_comps acc [] = acc"
| "norm_comps acc (c # cs) =
     (if c = [] \<or> c = ''.'' then norm_comps acc cs
      else if c = ''..'' then norm_comps (butlast acc) cs
      else norm_comps (acc @ [c]) cs)"

text \<open>
  The non-empty components of \<^verbatim>\<open>os.path.abspath(p)\<close>, with the current directory
  given by its components.
\<close>

definition abs_comps :: "string list \<Rightarrow> path \<Rightarrow> string list" where
  "abs_comps cwd p =
     norm_comps [] ((if startswith_sep p then [] else cwd) @ split_sep p)"

fun commonprefix :: "string list \<Rightarrow> string list \<Rightarrow> string list" where
  "commonprefix (x # xs) (y # ys) = (if x = y then x # commonprefix xs ys else [])"
| "commonprefix _ _ = []"

datatype exn =
    ImportError string
  | ValueError string
  | FileNotFoundError string
  | FileExistsError string
  | NotADirectoryError string
  | IsADirectoryError string
  | LibraryError string

text \<open>\<^verbatim>\<open>os.path.relpath(p, start)\<close>; it raises ValueError on an empty \<open>p\<close>.\<close>

definition relpath :: "string list \<Rightarrow> path \<Rightarrow> path \<Rightarrow> exn + path" where
  "relpath cwd p start =
     (if p = [] then Inl (ValueError ''no path specified'')
      else
        let start_list = abs_comps cwd start;
            path_list = abs_comps cwd p;
            i = length (commonprefix start_list path_list);
            rel_list = replicate (length start_list - i) ''..'' @ drop i path_list
        in (case rel_list of [] \<Rightarrow> Inr ''.'' | r # rs \<Rightarrow> Inr (path_join_list r rs)))"


section \<open>The file system\<close>

text \<open>
  A directory is an ordered list of named entries: the order is the one in which
  \<^verbatim>\<open>os.scandir\<close> lists them. Symbolic links, permissions and concurrent changes by
  other processes are outside the model.
\<close>

datatype node = File bytes | Dir "(string \<times> node) list"

type_synonym entries = "(string \<times> node) list"

record world =
  root :: entries
  cwd :: "string list"
  out :: "string list"

text \<open>
  \<open>root\<close> holds the entries of the directory \<^verbatim>\<open>/\<close>, \<open>cwd\<close> the components of
  \<^verbatim>\<open>os.getcwd()\<close>, and \<open>out\<close> the lines printed so far.
\<close>

fun lookup :: "entries \<Rightarrow> string list \<Rightarrow> node option" where
  "lookup es [] = Some (Dir es)"
| "lookup es (c # cs) =
     (case map_of es c of
        None \<Rightarrow> None
      | Some (File b) \<Rightarrow> (if cs = [] then Some (File b) else None)
      | Some (Dir ds) \<Rightarrow> lookup ds cs)"

definition is_dir_at :: "entries \<Rightarrow> string list \<Rightarrow> bool" where
  "is_dir_at r cs = (case lookup r cs of Some (Dir _) \<Rightarrow> True | _ \<Rightarrow> False)"

text \<open>
  Path resolution as the kernel does it, one component at a time from the directory
  \<open>cur\<close>: every component is looked up in a directory that exists. The result names
  the place the path denotes; its last component need not exist.
\<close>

fun walk_comps :: "entries \<Rightarrow> string list \<Rightarrow> string list \<Rightarrow> string list option" where
  "walk_comps r cur [] = Some cur"
| "walk_comps r cur (c # cs) =
     (if \<not> is_dir_at r cur then None
      else if c = [] \<or> c = ''.'' then walk_comps r cur cs
      else if c = ''..'' then walk_comps r (butlast cur) cs
      else walk_comps r (cur @ [c]) cs)"

definition resolve :: "world \<Rightarrow> path \<Rightarrow> string list option" where
  "resolve w p =
     (if p = [] then None
      else walk_comps (root w) (if startswith_sep p then [] else cwd w) (split_sep p))"

definition stat :: "world \<Rightarrow> path \<Rightarrow> node option" where
  "stat w p = (case resolve w p of None \<Rightarrow> None | Some cs \<Rightarrow> lookup (root w) cs)"

text \<open>\<^verbatim>\<open>os.path.exists(p)\<close>.\<close>

definition path_exists :: "world \<Rightarrow> path \<Rightarrow> bool" where
  "path_exists w p = (stat w p \<noteq> None)"

text \<open>Replace the entry \<open>c\<close> of a directory, or add it at the end.\<close>

definition upd_entry :: "string \<Rightarrow> node \<Rightarrow> entries \<Rightarrow> entries" where
  "upd_entry c n es =
     (if c \<in> fst ` set es then map (\<lambda>(k, v). if k = c then (k, n) else (k, v)) es
      else es @ [(c, n)])"

definition del_entry :: "string \<Rightarrow> entries \<Rightarrow> entries" where
  "del_entry c es = filter (\<lambda>(k, v). k \<noteq> c) es"

fun put :: "entries \<Rightarrow> string list \<Rightarrow> node \<Rightarrow> entries" where
  "put es [] n = es"
| "put es [c] n = upd_entry c n es"
| "put es (c # cs) n =
     (case map_of es c of
        Some (Dir ds) \<Rightarrow> upd_entry c (Dir (put ds cs n)) es
      | _ \<Rightarrow> es)"

fun remove_at :: "entries \<Rightarrow> string list \<Rightarrow> entries" where
  "remove_at es [] = es"
| "remove_at es [c] = del_entry c es"
| "remove_at es (c # cs) =
     (case map_of es c of
        Some (Dir ds) \<Rightarrow> upd_entry c (Dir (remove_at ds cs)) es
      | _ \<Rightarrow> es)"

text \<open>
  \<^verbatim>\<open>os.makedirs(name, exist_ok=True)\<close>: every missing directory along \<open>name\<close> is
  created. It raises on the empty name (\<^verbatim>\<open>mkdir('')\<close> fails with ENOENT, and
  \<^verbatim>\<open>os.path.isdir('')\<close> is false), and where a component is a regular file.
\<close>

fun mkdirs_from :: "entries \<Rightarrow> string list \<Rightarrow> string list \<Rightarrow> exn + entries" where
  "mkdirs_from r cur [] = Inr r"
| "mkdirs_from r cur (c # cs) =
     (if c = [] \<or> c = ''.'' then mkdirs_from r cur cs
      else if c = ''..'' then mkdirs_from r (butlast cur) cs
      else (case lookup r (cur @ [c]) of
              None \<Rightarrow> mkdirs_from (put r (cur @ [c]) (Dir [])) (cur @ [c]) cs
            | Some (Dir _) \<Rightarrow> mkdirs_from r (cur @ [c]) cs
            | Some (File _) \<Rightarrow>
                Inl (if cs = [] then FileExistsError (sep_join (cur @ [c]))
                     else NotADirectoryError (sep_join (cur @ [c])))))"

definition makedirs :: "path \<Rightarrow> world \<Rightarrow> (exn + unit) \<times> world" where
  "makedirs name w =
     (if name = [] then (Inl (FileNotFoundError name), w)
      else
        let start = (if startswith_sep name then [] else cwd w)
        in if \<not> is_dir_at (root w) start then (Inl (FileNotFoundError name), w)
           else (case mkdirs_from (root w) start (split_sep name) of
                   Inl e \<Rightarrow> (Inl e, w)
                 | Inr r' \<Rightarrow> (Inr (), w\<lparr>root := r'\<rparr>)))"

text \<open>
  \<^verbatim>\<open>open(p, 'w+b')\<close>: the file is created or truncated. The result is the place of the
  file. It raises when the directory of \<open>p\<close> is missing or \<open>p\<close> is a directory.
\<close>

definition open_write :: "path \<Rightarrow> world \<Rightarrow> (exn + string list) \<times> world" where
  "open_write p w =
     (case resolve w p of
        None \<Rightarrow> (Inl (FileNotFoundError p), w)
      | Some cs \<Rightarrow>
          (case lookup (root w) cs of
             Some (Dir _) \<Rightarrow> (Inl (IsADirectoryError p), w)
           | Some (File _) \<Rightarrow> (Inr cs, w\<lparr>root := put (root w) cs (File [])\<rparr>)
           | None \<Rightarrow>
               if cs \<noteq> [] \<and> is_dir_at (root w) (butlast cs)
               then (Inr cs, w\<lparr>root := put (root w) cs (File [])\<rparr>)
               else (Inl (FileNotFoundError p), w)))"

text \<open>\<^verbatim>\<open>print(line)\<close>.\<close>

definition print :: "string \<Rightarrow> world \<Rightarrow> world" where
  "print line w = w\<lparr>out := out w @ [line]\<rparr>"


section \<open>The external collaborators\<close>

text \<open>
  Pillow and rembg are opaque: each call either returns a value or raises, and what it
  returns is left open. \<open>'img\<close> is the type of decoded images, \<open>'sess\<close> the type of
  model sessions. Exceptions are the instances of Python's \<^verbatim>\<open>Exception\<close>; an
  interrupt is a signal from outside and not part of the model, and printing does not
  fail.
\<close>

record ('img, 'sess) env =
  rembg_installed :: bool
  pil_installed :: bool
  dir_st_size :: nat
  image_open :: "bytes \<Rightarrow> exn + 'img"
  image_verify :: "'img \<Rightarrow> exn option"
  image_convert :: "string \<Rightarrow> 'img \<Rightarrow> exn + 'img"
  image_save_png :: "bool \<Rightarrow> 'img \<Rightarrow> exn + bytes"
  new_session :: "string \<Rightarrow> exn + 'sess"
  rembg_remove :: "bytes \<Rightarrow> 'sess \<Rightarrow> bool \<Rightarrow> nat \<Rightarrow> nat \<Rightarrow> nat \<Rightarrow> exn + bytes"

text \<open>
  \<open>image_save_png optimize img\<close> is the PNG encoding of \<open>img\<close>; the last three
  arguments of \<open>rembg_remove\<close> are \<^verbatim>\<open>alpha_matting_foreground_threshold\<close>,
  \<^verbatim>\<open>alpha_matting_background_threshold\<close> and \<^verbatim>\<open>alpha_matting_erode_size\<close>;
  \<open>dir_st_size\<close> is the size the system reports for a directory.
\<close>

fun str_exn :: "exn \<Rightarrow> string" where
  "str_exn (ImportError m) = ''No module named '' @ m"
| "str_exn (ValueError m) = m"
| "str_exn (FileNotFoundError m) = ''[Errno 2] No such file or directory: '' @ m"
| "str_exn (FileExistsError m) = ''[Errno 17] File exists: '' @ m"
| "str_exn (NotADirectoryError m) = ''[Errno 20] Not a directory: '' @ m"
| "str_exn (IsADirectoryError m) = ''[Errno 21] Is a directory: '' @ m"
| "str_exn (LibraryError m) = m"

text \<open>\<^verbatim>\<open>os.path.getsize(p)\<close>.\<close>

definition getsize :: "('img, 'sess) env \<Rightarrow> world \<Rightarrow> path \<Rightarrow> exn + nat" where
  "getsize env w p =
     (case stat w p of
        None \<Rightarrow> Inl (FileNotFoundError p)
      | Some (File b) \<Rightarrow> Inr (length b)
      | Some (Dir _) \<Rightarrow> Inr (dir_st_size env))"

text \<open>\<^verbatim>\<open>Image.open(p)\<close> on a path.\<close>

definition image_open_path :: "('img, 'sess) env \<Rightarrow> world \<Rightarrow> path \<Rightarrow> exn + 'img" where
  "image_open_path env w p =
     (case stat w p of
        None \<Rightarrow> Inl (FileNotFoundError p)
      | Some (Dir _) \<Rightarrow> Inl (IsADirectoryError p)
      | Some (File b) \<Rightarrow> image_open env b)"

text \<open>
  \<^verbatim>\<open>image.save(p, 'PNG', optimize=True)\<close>: Pillow opens the file for writing, encodes
  into it, and on a failure of the encoder removes the file if the call created it.
\<close>

definition image_save_path ::
  "('img, 'sess) env \<Rightarrow> 'img \<Rightarrow> path \<Rightarrow> world \<Rightarrow> (exn + unit) \<times> world" where
  "image_save_path env img p w =
     (let created = \<not> path_exists w p
      in case open_write p w of
           (Inl e, w1) \<Rightarrow> (Inl e, w1)
         | (Inr cs, w1) \<Rightarrow>
             (case image_save_png env True img of
                Inl e \<Rightarrow> (Inl e, if created then w1\<lparr>root := remove_at (root w1) cs\<rparr> else w1)
              | Inr bs \<Rightarrow> (Inr (), w1\<lparr>root := put (root w1) cs (File bs)\<rparr>)))"


section \<open>The script\<close>

text \<open>
  The printed messages are given without their emoji and accents. Each function that
  prints or writes takes the world and returns the new one.
\<close>

subsection \<open>\<^verbatim>\<open>is_valid_image\<close>\<close>

definition is_valid_image_try :: "('img, 'sess) env \<Rightarrow> path \<Rightarrow> world \<Rightarrow> exn + bool" where
  "is_valid_image_try env file_path w =
     (if \<not> pil_installed env then Inl (ImportError ''PIL'')
      else case getsize env w file_path of
             Inl e \<Rightarrow> Inl e
           | Inr file_size \<Rightarrow>
               if file_size < 100 then Inr False
               else (case image_open_path env w file_path of
                       Inl e \<Rightarrow> Inl e
                     | Inr img \<Rightarrow>
                         (case image_verify env img of
                            Some e \<Rightarrow> Inl e
                          | None \<Rightarrow> Inr True)))"

definition is_valid_image :: "('img, 'sess) env \<Rightarrow> path \<Rightarrow> world \<Rightarrow> bool \<times> world" where
  "is_valid_image env file_path w =
     (case is_valid_image_try env file_path w of
        Inl e \<Rightarrow> (False, w)
      | Inr b \<Rightarrow> (b, w))"

subsection \<open>\<^verbatim>\<open>remove_background_high_quality\<close>\<close>

definition default_model_name :: string where
  "default_model_name = ''u2net''"

definition default_alpha_matting :: bool where
  "default_alpha_matting = True"

text \<open>
  Lines 66 to 88: the session, the source image forced to RGBA and encoded as PNG in
  memory, the call of \<^verbatim>\<open>remove\<close>, and its result decoded and forced to RGBA.
\<close>

definition bind_exn :: "exn + 'a \<Rightarrow> ('a \<Rightarrow> exn + 'b) \<Rightarrow> exn + 'b" where
  "bind_exn r f = (case r of Inl e \<Rightarrow> Inl e | Inr x \<Rightarrow> f x)"

definition remove_background_image ::
  "('img, 'sess) env \<Rightarrow> path \<Rightarrow> string \<Rightarrow> bool \<Rightarrow> world \<Rightarrow> exn + 'img" where
  "remove_background_image env input_path model_name alpha_matting w =
     bind_exn (new_session env model_name) (\<lambda>session.
     bind_exn (image_open_path env w input_path) (\<lambda>opened.
     bind_exn (image_convert env ''RGBA'' opened) (\<lambda>input_image.
     bind_exn (image_save_png env False input_image) (\<lambda>img_bytes.
     bind_exn (rembg_remove env img_bytes session alpha_matting 240 10 10) (\<lambda>output_bytes.
     bind_exn (image_open env output_bytes) (\<lambda>decoded.
     image_convert env ''RGBA'' decoded))))))"

text \<open>Lines 90 to 94: the directory of the output path is made and the image saved.\<close>

definition write_output ::
  "('img, 'sess) env \<Rightarrow> 'img \<Rightarrow> path \<Rightarrow> world \<Rightarrow> (exn + unit) \<times> world" where
  "write_output env output_image output_path w =
     (case makedirs (dirname output_path) w of
        (Inl e, w1) \<Rightarrow> (Inl e, w1)
      | (Inr u, w1) \<Rightarrow> image_save_path env output_image output_path w1)"

definition remove_background_try ::
  "('img, 'sess) env \<Rightarrow> path \<Rightarrow> path \<Rightarrow> string \<Rightarrow> bool \<Rightarrow> world \<Rightarrow> (exn + bool) \<times> world" where
  "remove_background_try env input_path output_path model_name alpha_matting w =
     (if \<not> rembg_installed env then (Inl (ImportError ''rembg''), w)
      else if \<not> pil_installed env then (Inl (ImportError ''PIL''), w)
      else if \<not> path_exists w input_path
        then (Inr False, print (''Arquivo nao encontrado: '' @ input_path) w)
      else if \<not> fst (is_valid_image env input_path w)
        then (Inr False, print (''Arquivo nao e uma imagem valida: '' @ input_path)
                (snd (is_valid_image env input_path w)))
      else
        let w2 = print (''Processando com qualidade: '' @ input_path)
                   (snd (is_valid_image env input_path w))
        in case remove_background_image env input_path model_name alpha_matting w2 of
             Inl e \<Rightarrow> (Inl e, w2)
           | Inr output_image \<Rightarrow>
               (case write_output env output_image output_path w2 of
                  (Inl e, w4) \<Rightarrow> (Inl e, w4)
                | (Inr u, w4) \<Rightarrow> (Inr True, print (''Salvo: '' @ output_path) w4)))"

text \<open>
  The parameters \<^verbatim>\<open>model_name\<close> and \<^verbatim>\<open>alpha_matting\<close> are optional: \<open>None\<close> is a
  call that leaves the argument out.
\<close>

definition remove_background_high_quality ::
  "('img, 'sess) env \<Rightarrow> path \<Rightarrow> path \<Rightarrow> string option \<Rightarrow> bool option \<Rightarrow> world \<Rightarrow> bool \<times> world" where
  "remove_background_high_quality env input_path output_path model_name alpha_matting w =
     (case remove_background_try env input_path output_path
             (case model_name of None \<Rightarrow> default_model_name | Some m \<Rightarrow> m)
             (case alpha_matting of None \<Rightarrow> default_alpha_matting | Some a \<Rightarrow> a) w of
        (Inl e, w') \<Rightarrow> (False, print (''Erro ao processar: '' @ str_exn e) w')
      | (Inr b, w') \<Rightarrow> (b, w'))"


subsection \<open>\<^verbatim>\<open>process_directory_high_quality\<close>\<close>

definition supported_formats :: "string list" where
  "supported_formats = [''.jpg'', ''.jpeg'', ''.png'', ''.bmp'', ''.tiff'', ''.webp'']"

text \<open>
  \<^verbatim>\<open>os.walk(top)\<close>, top down: the triple of a directory comes before the triples of
  its subdirectories, which are visited in listing order. A \<open>top\<close> that is not a
  directory gives no triple (the error of \<^verbatim>\<open>scandir\<close> is ignored).
\<close>

fun is_dir_entry :: "string \<times> node \<Rightarrow> bool" where
  "is_dir_entry (n, Dir _) = True"
| "is_dir_entry (n, File _) = False"

fun walk_dir :: "path \<Rightarrow> entries \<Rightarrow> (path \<times> string list \<times> string list) list"
  and walk_subdirs :: "path \<Rightarrow> entries \<Rightarrow> (path \<times> string list \<times> string list) list" where
  "walk_dir top_dir es =
     (top_dir, map fst (filter is_dir_entry es), map fst (filter (\<lambda>e. \<not> is_dir_entry e) es))
       # walk_subdirs top_dir es"
| "walk_subdirs top_dir [] = []"
| "walk_subdirs top_dir ((n, File b) # es) = walk_subdirs top_dir es"
| "walk_subdirs top_dir ((n, Dir ds) # es) = walk_dir (path_join top_dir n) ds @ walk_subdirs top_dir es"

definition os_walk :: "world \<Rightarrow> path \<Rightarrow> (path \<times> string list \<times> string list) list" where
  "os_walk w top_dir = (case stat w top_dir of Some (Dir es) \<Rightarrow> walk_dir top_dir es | _ \<Rightarrow> [])"

text \<open>Lines 111 to 115: the list of image files.\<close>

definition is_supported :: "string \<Rightarrow> bool" where
  "is_supported file = (lower (path_suffix file) \<in> set supported_formats)"

definition collect_images :: "(path \<times> string list \<times> string list) list \<Rightarrow> path list" where
  "collect_images walked =
     concat (map (\<lambda>(root_dir, dirs, files). map (path_join root_dir) (filter is_supported files)) walked)"

text \<open>\<^verbatim>\<open>str(n)\<close> for a natural number.\<close>

fun show_nat :: "nat \<Rightarrow> string" where
  "show_nat n =
     (if n < 10 then [''0123456789'' ! n]
      else show_nat (n div 10) @ [''0123456789'' ! (n mod 10)])"

declare show_nat.simps [simp del]

text \<open>Lines 129 to 131: the output file of an image file.\<close>

definition output_file_for :: "string list \<Rightarrow> path \<Rightarrow> path \<Rightarrow> path \<Rightarrow> exn + path" where
  "output_file_for cur input_dir output_dir img_file =
     (case relpath cur img_file input_dir of
        Inl e \<Rightarrow> Inl e
      | Inr rel_path \<Rightarrow>
          Inr (fst (splitext (path_join output_dir rel_path)) @ ''_sem_fundo.png''))"

text \<open>
  Lines 126 to 138: the loop over the list, with the index \<open>i\<close> and the two counters.
  An exception of \<^verbatim>\<open>relpath\<close> is not caught and leaves the function.
\<close>

fun process_loop ::
  "('img, 'sess) env \<Rightarrow> path \<Rightarrow> path \<Rightarrow> nat \<Rightarrow> path list \<Rightarrow> nat \<Rightarrow> nat \<times> nat \<Rightarrow> world
     \<Rightarrow> (exn + nat \<times> nat) \<times> world" where
  "process_loop env input_dir output_dir n_files [] i (success_count, fail_count) w =
     (Inr (success_count, fail_count), w)"
| "process_loop env input_dir output_dir n_files (img_file # rest) i (success_count, fail_count) w =
     (let w1 = print (''['' @ show_nat i @ ''/'' @ show_nat n_files @ '']'') w
      in case output_file_for (cwd w1) input_dir output_dir img_file of
           Inl e \<Rightarrow> (Inl e, w1)
         | Inr output_file \<Rightarrow>
             (case remove_background_high_quality env img_file output_file None None w1 of
                (True, w2) \<Rightarrow>
                  process_loop env input_dir output_dir n_files rest (Suc i)
                    (success_count + 1, fail_count) w2
              | (False, w2) \<Rightarrow>
                  process_loop env input_dir output_dir n_files rest (Suc i)
                    (success_count, fail_count + 1) w2))"

definition process_directory_high_quality ::
  "('img, 'sess) env \<Rightarrow> path \<Rightarrow> path \<Rightarrow> world \<Rightarrow> (exn + nat \<times> nat) \<times> world" where
  "process_directory_high_quality env input_dir output_dir w =
     (if \<not> path_exists w input_dir
      then (Inr (0, 0), print (''Diretorio nao encontrado: '' @ input_dir) w)
      else
        let image_files = collect_images (os_walk w input_dir)
        in if image_files = []
           then (Inr (0, 0), print (''Nenhuma imagem encontrada em: '' @ input_dir) w)
           else process_loop env input_dir output_dir (length image_files) image_files 1 (0, 0)
                  (print (''Encontradas '' @ show_nat (length image_files) @ '' imagens'') w))"

subsection \<open>\<^verbatim>\<open>main\<close>, option 1\<close>

text \<open>
  Lines 163 to 168: an empty answer to the prompt for the output path selects the
  automatic path.
\<close>

definition main_process_image ::
  "('img, 'sess) env \<Rightarrow> path \<Rightarrow> path \<Rightarrow> world \<Rightarrow> bool \<times> world" where
  "main_process_image env input_path answer w =
     (let output_path =
            (if answer = [] then fst (splitext input_path) @ ''_sem_fundo.png'' else answer)
      in remove_background_high_quality env input_path output_path None None w)"

section \<open>Notions used to state the properties\<close>

text \<open>
  \<open>file_at es ds n\<close>: below a directory with the entries \<open>es\<close>, the subdirectory reached
  by the names \<open>ds\<close> holds a regular file named \<open>n\<close>.
\<close>

inductive file_at :: "entries \<Rightarrow> string list \<Rightarrow> string \<Rightarrow> bool" where
  here: "(n, File b) \<in> set es \<Longrightarrow> file_at es [] n"
| below: "(d, Dir ds) \<in> set es \<Longrightarrow> file_at ds p n \<Longrightarrow> file_at es (d # p) n"

text \<open>
  All regular files below a directory, each with the names of the directories that lead to
  it: the files of the directory first, then those of its subdirectories in listing order.
\<close>

fun files_below :: "entries \<Rightarrow> (string list \<times> string) list"
  and files_in_subdirs :: "entries \<Rightarrow> (string list \<times> string) list" where
  "files_below es =
     map (\<lambda>n. ([], n)) (map fst (filter (\<lambda>e. \<not> is_dir_entry e) es)) @ files_in_subdirs es"
| "files_in_subdirs [] = []"
| "files_in_subdirs ((n, File b) # es) = files_in_subdirs es"
| "files_in_subdirs ((d, Dir ds) # es) =
     map (\<lambda>(p, n). (d # p, n)) (files_below ds) @ files_in_subdirs es"

text \<open>
  The calls of \<^verbatim>\<open>remove_background_high_quality\<close> that the loop of lines 126 to 138
  makes, in order: the image file, the output file and the result of each call.
\<close>

fun batch_trace ::
  "('img, 'sess) env \<Rightarrow> path \<Rightarrow> path \<Rightarrow> nat \<Rightarrow> path list \<Rightarrow> nat \<Rightarrow> world
     \<Rightarrow> (path \<times> path \<times> bool) list" where
  "batch_trace env input_dir output_dir n_files [] i w = []"
| "batch_trace env input_dir output_dir n_files (img_file # rest) i w =
     (let w1 = print (''['' @ show_nat i @ ''/'' @ show_nat n_files @ '']'') w
      in case output_file_for (cwd w1) input_dir output_dir img_file of
           Inl e \<Rightarrow> []
         | Inr output_file \<Rightarrow>
             (img_file, output_file,
              fst (remove_background_high_quality env img_file output_file None None w1))
             # batch_trace env input_dir output_dir n_files rest (Suc i)
                 (snd (remove_background_high_quality env img_file output_file None None w1)))"

definition directory_trace ::
  "('img, 'sess) env \<Rightarrow> path \<Rightarrow> path \<Rightarrow> world \<Rightarrow> (path \<times> path \<times> bool) list" where
  "directory_trace env input_dir output_dir w =
     (let image_files = collect_images (os_walk w input_dir)
      in batch_trace env input_dir output_dir (length image_files) image_files 1
           (print (''Encontradas '' @ show_nat (length image_files) @ '' imagens'') w))"

definition successes :: "(path \<times> path \<times> bool) list \<Rightarrow> nat" where
  "successes t = length (filter (\<lambda>(img_file, output_file, ok). ok) t)"

definition failures :: "(path \<times> path \<times> bool) list \<Rightarrow> nat" where
  "failures t = length (filter (\<lambda>(img_file, output_file, ok). \<not> ok) t)"


text \<open>
  The names a directory can hold: not empty, without a separator, and neither \<^verbatim>\<open>.\<close> nor
  \<^verbatim>\<open>..\<close>. A tree is well formed when every name in it is such a name.
\<close>

definition proper_name :: "string \<Rightarrow> bool" where
  "proper_name n = (n \<noteq> [] \<and> sep \<notin> set n \<and> n \<noteq> ''.'' \<and> n \<noteq> ''..'')"

fun wf_entries :: "entries \<Rightarrow> bool" where
  "wf_entries [] = True"
| "wf_entries ((n, File b) # es) = (proper_name n \<and> wf_entries es)"
| "wf_entries ((n, Dir ds) # es) = (proper_name n \<and> wf_entries ds \<and> wf_entries es)"

text \<open>
  \<^verbatim>\<open>Path(name).stem\<close>: the name without its suffix. The output path as the
  specification gives it, \<^verbatim>\<open><output_root>/<relative_dir>/<basename_without_ext>_sem_fundo.png\<close>,
  for a file \<open>n\<close> in the subdirectory \<open>ds\<close> of the input directory.
\<close>

definition path_stem :: "string \<Rightarrow> string" where
  "path_stem name = (if path_suffix name = [] then name else butlast (upto_last dot name))"

definition spec_output_path :: "path \<Rightarrow> string list \<Rightarrow> string \<Rightarrow> path" where
  "spec_output_path output_root ds n =
     path_join output_root (sep_join (ds @ [path_stem n @ ''_sem_fundo.png'']))"

text \<open>
  The relative path of a file in the subdirectory \<open>ds\<close>, up to the file name, and
  the output directory joined with it.
\<close>

definition rel_prefix :: "string list \<Rightarrow> string" where
  "rel_prefix ds = concat (map (\<lambda>d. d @ [sep]) ds)"

definition join_prefix :: "path \<Rightarrow> string list \<Rightarrow> string" where
  "join_prefix output_dir ds =
     (if output_dir = [] \<or> endswith_sep output_dir then output_dir else output_dir @ [sep])
       @ rel_prefix ds"

section \<open>Example worlds\<close>

text \<open>
  A decoder that accepts the files starting with \<^verbatim>\<open>IMG\<close>, an engine that returns its
  input, and a small home directory. \<open>ex_image\<close> has exactly 100 bytes.
\<close>

definition ex_env :: "(bytes, string) env" where
  "ex_env = \<lparr>rembg_installed = True, pil_installed = True, dir_st_size = 4096,
     image_open = (\<lambda>b. if take 3 b = ''IMG'' then Inr b
                         else Inl (LibraryError ''cannot identify image file'')),
     image_verify = (\<lambda>img. None),
     image_convert = (\<lambda>m img. Inr img),
     image_save_png = (\<lambda>optimize img. Inr img),
     new_session = (\<lambda>m. Inr m),
     rembg_remove = (\<lambda>b s a fg bg er. Inr b)\<rparr>"

definition ex_env_failing :: "(bytes, string) env" where
  "ex_env_failing = ex_env\<lparr>rembg_remove := (\<lambda>b s a fg bg er. Inl (LibraryError ''model failure''))\<rparr>"

definition ex_image :: bytes where
  "ex_image = ''IMG'' @ replicate 97 (CHR ''x'')"

definition ex_world :: world where
  "ex_world =
     \<lparr>root = [(''home'', Dir [(''u'', Dir
         [(''in'', Dir
            [(''a.png'', File ex_image), (''b.txt'', File ''hello''),
             (''sub'', Dir [(''bad.jpg'', File ''IMG''), (''IMG.PNG'', File ex_image)])]),
          (''docs'', Dir [(''b.txt'', File ''hello'')]),
          (''dots'', Dir [(''..png'', File ex_image)]),
          (''photo.jpg'', File ex_image)])])],
      cwd = [''home'', ''u''], out = []\<rparr>"


section \<open>Properties\<close>

subsection \<open>Printing and reading leave the file system alone\<close>

lemma is_valid_image_world [simp]: "snd (is_valid_image env p w) = w"
  by (simp add: is_valid_image_def split: sum.splits)

lemma root_print [simp]: "root (print l w) = root w"
  by (simp add: print_def)

lemma cwd_print [simp]: "cwd (print l w) = cwd w"
  by (simp add: print_def)

lemma out_print [simp]: "out (print l w) = out w @ [l]"
  by (simp add: print_def)

lemma stat_print [simp]: "stat (print l w) p = stat w p"
  by (simp add: stat_def resolve_def split: option.splits)

lemma path_exists_print [simp]: "path_exists (print l w) p = path_exists w p"
  by (simp add: path_exists_def)

lemma bind_exn_Inr_iff: "bind_exn r f = Inr y \<longleftrightarrow> (\<exists>x. r = Inr x \<and> f x = Inr y)"
  by (cases r) (simp_all add: bind_exn_def)

lemma makedirs_empty: "makedirs [] w = (Inl (FileNotFoundError []), w)"
  by (simp add: makedirs_def)

subsection \<open>The image validator\<close>

text \<open>
  C1 (as amended). \<^verbatim>\<open>is_valid_image\<close> returns true exactly when Pillow can be
  imported, the path is a regular file of at least 100 bytes, and Pillow opens and verifies
  it without an exception; every exception gives false, and the world is returned as
  it was. The claim asks for more than 100 bytes; the code rejects only sizes below
  100.
\<close>

theorem is_valid_image_iff:
  "(fst (is_valid_image env p w) \<longleftrightarrow>
      pil_installed env \<and>
      (\<exists>b img. stat w p = Some (File b) \<and> 100 \<le> length b
          \<and> image_open env b = Inr img \<and> image_verify env img = None))
   \<and> snd (is_valid_image env p w) = w"
  by (auto simp: is_valid_image_def is_valid_image_try_def getsize_def image_open_path_def
      split: sum.splits option.splits node.splits)

theorem is_valid_image_iff_witness:
  "fst (is_valid_image ex_env ''in/a.png'' ex_world)
   \<and> \<not> fst (is_valid_image ex_env ''in/sub/bad.jpg'' ex_world)
   \<and> snd (is_valid_image ex_env ''in/a.png'' ex_world) = ex_world"
proof -
  have "stat ex_world ''in/a.png'' = Some (File ex_image)" by code_simp
  moreover have "100 \<le> length ex_image" by code_simp
  moreover have "image_open ex_env ex_image = Inr ex_image" by code_simp
  moreover have "image_verify ex_env ex_image = None" by code_simp
  moreover have "pil_installed ex_env" by code_simp
  moreover have "stat ex_world ''in/sub/bad.jpg'' = Some (File ''IMG'')" by code_simp
  ultimately show ?thesis
    using is_valid_image_iff [of ex_env "''in/a.png''" ex_world]
      is_valid_image_iff [of ex_env "''in/sub/bad.jpg''" ex_world]
    by auto
qed

text \<open>
  C1 as stated fails on a file of exactly 100 bytes that Pillow accepts: the validator
  returns true although the size does not exceed 100.
\<close>

theorem is_valid_image_counterexample:
  "fst (is_valid_image ex_env ''in/a.png'' ex_world)
   \<and> stat ex_world ''in/a.png'' = Some (File ex_image)
   \<and> \<not> 100 < length ex_image"
  by code_simp

subsection \<open>The single-image processor\<close>

text \<open>
  C4. When the input path does not exist or fails the validator,
  \<^verbatim>\<open>remove_background_high_quality\<close> returns false and the file system is unchanged: no
  file and no directory is created.
\<close>

theorem invalid_input_fails_without_output:
  assumes "\<not> path_exists w input_path \<or> \<not> fst (is_valid_image env input_path w)"
  shows "fst (remove_background_high_quality env input_path output_path model_name alpha_matting w) = False
       \<and> root (snd (remove_background_high_quality env input_path output_path model_name
                      alpha_matting w)) = root w"
  using assms
  by (auto simp: remove_background_high_quality_def remove_background_try_def
      split: prod.splits sum.splits)

theorem invalid_input_fails_without_output_witness:
  "\<not> path_exists ex_world ''nope.png''
   \<and> fst (remove_background_high_quality ex_env ''nope.png'' ''out/x.png'' None None ex_world) = False
   \<and> root (snd (remove_background_high_quality ex_env ''nope.png'' ''out/x.png'' None None ex_world))
       = root ex_world
   \<and> path_exists ex_world ''in/sub/bad.jpg''
   \<and> \<not> fst (is_valid_image ex_env ''in/sub/bad.jpg'' ex_world)
   \<and> fst (remove_background_high_quality ex_env ''in/sub/bad.jpg'' ''out/x.png'' None None ex_world)
       = False
   \<and> root (snd (remove_background_high_quality ex_env ''in/sub/bad.jpg'' ''out/x.png'' None None
                  ex_world)) = root ex_world"
proof -
  have a: "\<not> path_exists ex_world ''nope.png''" by code_simp
  have b: "\<not> fst (is_valid_image ex_env ''in/sub/bad.jpg'' ex_world)" by code_simp
  have c: "path_exists ex_world ''in/sub/bad.jpg''" by code_simp
  show ?thesis
    using a b c
      invalid_input_fails_without_output [of ex_world "''nope.png''" ex_env "''out/x.png''" None None]
      invalid_input_fails_without_output [of ex_world "''in/sub/bad.jpg''" ex_env "''out/x.png''"
        None None]
    by simp
qed

text \<open>
  C5. Every exception raised inside \<^verbatim>\<open>remove_background_high_quality\<close> is caught there:
  a failed import, an exception of any step that produces the output image (session,
  decoding, conversion, encoding, inference), of the creation of the directory, or of
  the write gives the result false, with the message of the exception printed last. The
  function returns a boolean in every case; only when no step raises does it return
  true.
\<close>

theorem processor_catches_exceptions:
  fixes env :: "('img, 'sess) env" and input_path output_path model_name alpha_matting w
  defines "r \<equiv> remove_background_high_quality env input_path output_path
                  (Some model_name) (Some alpha_matting) w"
  defines "w2 \<equiv> print (''Processando com qualidade: '' @ input_path) w"
  defines "failed \<equiv> \<lambda>e w'. r = (False, print (''Erro ao processar: '' @ str_exn e) w')"
  shows "(\<not> rembg_installed env \<longrightarrow> failed (ImportError ''rembg'') w)
    \<and> (rembg_installed env \<and> \<not> pil_installed env \<longrightarrow> failed (ImportError ''PIL'') w)
    \<and> (rembg_installed env \<and> pil_installed env \<and> path_exists w input_path
         \<and> fst (is_valid_image env input_path w) \<longrightarrow>
        (\<forall>e. remove_background_image env input_path model_name alpha_matting w2 = Inl e
              \<longrightarrow> failed e w2)
        \<and> (\<forall>img e w3.
              remove_background_image env input_path model_name alpha_matting w2 = Inr img
              \<and> makedirs (dirname output_path) w2 = (Inl e, w3) \<longrightarrow> failed e w3)
        \<and> (\<forall>img u e w3 w4.
              remove_background_image env input_path model_name alpha_matting w2 = Inr img
              \<and> makedirs (dirname output_path) w2 = (Inr u, w3)
              \<and> image_save_path env img output_path w3 = (Inl e, w4) \<longrightarrow> failed e w4)
        \<and> (\<forall>img u u' w3 w4.
              remove_background_image env input_path model_name alpha_matting w2 = Inr img
              \<and> makedirs (dirname output_path) w2 = (Inr u, w3)
              \<and> image_save_path env img output_path w3 = (Inr u', w4)
              \<longrightarrow> r = (True, print (''Salvo: '' @ output_path) w4)))"
  unfolding r_def w2_def failed_def
  by (auto simp: remove_background_high_quality_def remove_background_try_def write_output_def)

theorem processor_catches_exceptions_witness:
  "remove_background_image ex_env_failing ''in/a.png'' ''u2net'' True
       (print ''Processando com qualidade: in/a.png'' ex_world) = Inl (LibraryError ''model failure'')
   \<and> remove_background_high_quality ex_env_failing ''in/a.png'' ''out/a_sem_fundo.png''
        (Some ''u2net'') (Some True) ex_world =
      (False, print ''Erro ao processar: model failure''
                (print ''Processando com qualidade: in/a.png'' ex_world))"
proof -
  have a: "rembg_installed ex_env_failing \<and> pil_installed ex_env_failing
       \<and> path_exists ex_world ''in/a.png'' \<and> fst (is_valid_image ex_env_failing ''in/a.png'' ex_world)"
    by code_simp
  have b: "remove_background_image ex_env_failing ''in/a.png'' ''u2net'' True
       (print ''Processando com qualidade: in/a.png'' ex_world) = Inl (LibraryError ''model failure'')"
    by code_simp
  show ?thesis
    using a b
      processor_catches_exceptions [where env = ex_env_failing and w = ex_world
        and input_path = "''in/a.png''" and output_path = "''out/a_sem_fundo.png''"
        and model_name = "''u2net''" and alpha_matting = True]
    by simp
qed

text \<open>
  C6 (the code fails it). For an output path without a directory component,
  \<^verbatim>\<open>os.path.dirname\<close> is the empty string, \<^verbatim>\<open>os.makedirs\<close> raises on it, and
  \<^verbatim>\<open>remove_background_high_quality\<close> returns false without writing, whatever the input.
  The automatic output path of option 1 of \<^verbatim>\<open>main\<close> for the input \<^verbatim>\<open>photo.jpg\<close> is such
  a path.
\<close>

theorem no_directory_component_fails:
  assumes "dirname output_path = []"
  shows "fst (remove_background_high_quality env input_path output_path model_name alpha_matting w) = False
       \<and> root (snd (remove_background_high_quality env input_path output_path model_name
                      alpha_matting w)) = root w"
  using assms
  by (auto simp: remove_background_high_quality_def remove_background_try_def write_output_def
      makedirs_empty Let_def split: prod.splits sum.splits)

theorem no_directory_component_fails_witness:
  "dirname (fst (splitext ''photo.jpg'') @ ''_sem_fundo.png'') = []
   \<and> fst (is_valid_image ex_env ''photo.jpg'' ex_world)
   \<and> fst (main_process_image ex_env ''photo.jpg'' [] ex_world) = False
   \<and> root (snd (main_process_image ex_env ''photo.jpg'' [] ex_world)) = root ex_world
   \<and> out (snd (main_process_image ex_env ''photo.jpg'' [] ex_world)) =
       [''Processando com qualidade: photo.jpg'',
        ''Erro ao processar: [Errno 2] No such file or directory: '']"
proof -
  have d: "dirname (fst (splitext ''photo.jpg'') @ ''_sem_fundo.png'') = []" by code_simp
  have v: "fst (is_valid_image ex_env ''photo.jpg'' ex_world)" by code_simp
  have o: "out (snd (main_process_image ex_env ''photo.jpg'' [] ex_world)) =
       [''Processando com qualidade: photo.jpg'',
        ''Erro ao processar: [Errno 2] No such file or directory: '']" by code_simp
  show ?thesis
    using no_directory_component_fails [OF d, of ex_env "''photo.jpg''" None None ex_world] d v o
    by (simp add: main_process_image_def)
qed

lemma is_valid_image_rm [simp]:
  "is_valid_image (env\<lparr>rembg_remove := rm\<rparr>) p w = is_valid_image env p w"
  by (simp add: is_valid_image_def is_valid_image_try_def getsize_def image_open_path_def
      cong: option.case_cong node.case_cong sum.case_cong if_cong)

lemma image_save_path_rm [simp]:
  "image_save_path (env\<lparr>rembg_remove := rm\<rparr>) img p w = image_save_path env img p w"
  by (simp add: image_save_path_def cong: prod.case_cong sum.case_cong)

lemma remove_background_image_rm:
  assumes "\<forall>b s a. rm b s a 240 10 10 = rembg_remove env b s a 240 10 10"
  shows "remove_background_image (env\<lparr>rembg_remove := rm\<rparr>) p m a w =
         remove_background_image env p m a w"
  using assms by (simp add: remove_background_image_def image_open_path_def
      cong: option.case_cong node.case_cong)

lemma remove_background_image_calls:
  assumes "remove_background_image env p m a w = Inr img"
  shows "\<exists>b s ob. rembg_remove env b s a 240 10 10 = Inr ob"
  using assms unfolding remove_background_image_def bind_exn_Inr_iff by blast

text \<open>
  C9. A call that leaves out \<^verbatim>\<open>model_name\<close> and \<^verbatim>\<open>alpha_matting\<close> is the call with
  \<^verbatim>\<open>'u2net'\<close> and \<^verbatim>\<open>True\<close>. The engine is called with foreground threshold 240,
  background threshold 10 and erosion size 10 only: an engine that differs from the
  given one at other thresholds gives the same result, and a successful run with edge
  refinement enabled has a call of the engine with these three values that returned.
\<close>

theorem defaults_and_fixed_tuning:
  "remove_background_high_quality env input_path output_path None None w =
     remove_background_high_quality env input_path output_path (Some ''u2net'') (Some True) w
   \<and> ((\<forall>b s a. rm b s a 240 10 10 = rembg_remove env b s a 240 10 10) \<longrightarrow>
        remove_background_high_quality (env\<lparr>rembg_remove := rm\<rparr>) input_path output_path
          model_name alpha_matting w =
        remove_background_high_quality env input_path output_path model_name alpha_matting w)
   \<and> (fst (remove_background_high_quality env input_path output_path model_name (Some True) w) \<longrightarrow>
        (\<exists>b s ob. rembg_remove env b s True 240 10 10 = Inr ob))"
proof (intro conjI impI)
  show "remove_background_high_quality env input_path output_path None None w =
     remove_background_high_quality env input_path output_path (Some ''u2net'') (Some True) w"
    by (simp add: remove_background_high_quality_def default_model_name_def
        default_alpha_matting_def)
next
  assume "\<forall>b s a. rm b s a 240 10 10 = rembg_remove env b s a 240 10 10"
  then show "remove_background_high_quality (env\<lparr>rembg_remove := rm\<rparr>) input_path output_path
          model_name alpha_matting w =
        remove_background_high_quality env input_path output_path model_name alpha_matting w"
    by (simp add: remove_background_high_quality_def remove_background_try_def
        write_output_def remove_background_image_rm
        cong: prod.case_cong sum.case_cong if_cong)
next
  assume "fst (remove_background_high_quality env input_path output_path model_name (Some True) w)"
  then show "\<exists>b s ob. rembg_remove env b s True 240 10 10 = Inr ob"
    by (auto simp: remove_background_high_quality_def remove_background_try_def Let_def
        split: prod.splits sum.splits if_splits dest: remove_background_image_calls)
qed

theorem defaults_and_fixed_tuning_witness:
  "(\<forall>b s a. (\<lambda>b s a fg bg er. if (fg, bg, er) = (240, 10, 10) then Inr b
                else Inl (LibraryError ''other thresholds'')) b s a 240 10 10
             = rembg_remove ex_env b s a 240 10 10)
   \<and> remove_background_high_quality
        (ex_env\<lparr>rembg_remove := (\<lambda>b s a fg bg er. if (fg, bg, er) = (240, 10, 10) then Inr b
                else Inl (LibraryError ''other thresholds''))\<rparr>)
        ''in/a.png'' ''out/a_sem_fundo.png'' None None ex_world =
      remove_background_high_quality ex_env ''in/a.png'' ''out/a_sem_fundo.png'' None None ex_world
   \<and> fst (remove_background_high_quality ex_env ''in/a.png'' ''out/a_sem_fundo.png'' None
            (Some True) ex_world)
   \<and> (\<exists>b s ob. rembg_remove ex_env b s True 240 10 10 = Inr ob)"
proof -
  have a: "\<forall>b s a. (\<lambda>b s a fg bg er. if (fg, bg, er) = (240, 10, 10) then Inr b
                else Inl (LibraryError ''other thresholds'')) b s a (240::nat) (10::nat) (10::nat)
             = rembg_remove ex_env b s a 240 10 10"
    by (simp add: ex_env_def)
  have b: "fst (remove_background_high_quality ex_env ''in/a.png'' ''out/a_sem_fundo.png'' None
            (Some True) ex_world)"
    by code_simp
  show ?thesis
    using a b
      defaults_and_fixed_tuning [of ex_env "''in/a.png''" "''out/a_sem_fundo.png''" ex_world
        "\<lambda>b s a fg bg er. if (fg, bg, er) = (240, 10, 10) then Inr b
                else Inl (LibraryError ''other thresholds'')" None None]
      defaults_and_fixed_tuning [of ex_env "''in/a.png''" "''out/a_sem_fundo.png''" ex_world
        "rembg_remove ex_env" None]
    by simp
qed

subsection \<open>The directory walker\<close>

lemma collect_images_append:
  "collect_images (a @ b) = collect_images a @ collect_images b"
  by (simp add: collect_images_def)

lemma collect_images_Cons:
  "collect_images ((r, ds, fs) # rest) =
     map (path_join r) (filter is_supported fs) @ collect_images rest"
  by (simp add: collect_images_def)

lemma collect_images_Nil: "collect_images [] = []"
  by (simp add: collect_images_def)

lemma filter_file_names:
  "filter (\<lambda>(ds, n). is_supported n) (map (\<lambda>n. ([], n)) ns) =
     map (\<lambda>n. ([], n)) (filter is_supported ns)"
  by (induction ns) auto

lemma filter_below_names:
  "filter (\<lambda>(ds, n). is_supported n) (map (\<lambda>(p, n). (d # p, n)) xs) =
     map (\<lambda>(p, n). (d # p, n)) (filter (\<lambda>(ds, n). is_supported n) xs)"
  by (induction xs) auto

lemma top_files:
  "map (path_join top_dir) (filter is_supported (map fst xs)) =
     map (\<lambda>(ds, n). path_join_list top_dir (ds @ [n]))
       (filter (\<lambda>(ds, n). is_supported n) (map (\<lambda>n. ([], n)) (map fst xs)))"
  by (induction xs) auto

lemma below_files:
  "map (\<lambda>(ds, n). path_join_list (path_join top_dir d) (ds @ [n]))
       (filter (\<lambda>(ds, n). is_supported n) xs) =
   map (\<lambda>(ds, n). path_join_list top_dir (ds @ [n]))
       (filter (\<lambda>(ds, n). is_supported n) (map (\<lambda>(p, n). (d # p, n)) xs))"
  by (induction xs) auto

lemma walk_collects:
  "collect_images (walk_dir top_dir es) =
     map (\<lambda>(ds, n). path_join_list top_dir (ds @ [n]))
       (filter (\<lambda>(ds, n). is_supported n) (files_below es))"
  "collect_images (walk_subdirs top_dir es) =
     map (\<lambda>(ds, n). path_join_list top_dir (ds @ [n]))
       (filter (\<lambda>(ds, n). is_supported n) (files_in_subdirs es))"
proof (induction top_dir es and top_dir es rule: walk_dir_walk_subdirs.induct)
  case (1 top_dir es)
  then show ?case
    by (simp only: walk_dir.simps files_below.simps collect_images_Cons filter_append
        map_append top_files)
next
  case (2 top_dir)
  then show ?case by (simp add: collect_images_Nil)
next
  case (3 top_dir n b es)
  then show ?case by simp
next
  case (4 top_dir n ds es)
  then show ?case
    by (simp only: walk_subdirs.simps files_in_subdirs.simps collect_images_append
        filter_append map_append below_files)
qed

lemma file_at_mono: "file_at es ds n \<Longrightarrow> set es \<subseteq> set es' \<Longrightarrow> file_at es' ds n"
  by (erule file_at.cases) (auto intro: file_at.intros)

lemma not_dir_entry_File: "\<not> is_dir_entry (n, nd) \<Longrightarrow> \<exists>b. nd = File b"
  by (cases nd) auto

lemma files_below_sound:
  "(ds, n) \<in> set (files_below es) \<Longrightarrow> file_at es ds n"
  "(ds, n) \<in> set (files_in_subdirs es) \<Longrightarrow> file_at es ds n"
proof (induction es and es arbitrary: ds n and ds n rule: files_below_files_in_subdirs.induct)
  case (1 es)
  from "1.prems" have "(ds = [] \<and> (\<exists>nd. (n, nd) \<in> set es \<and> \<not> is_dir_entry (n, nd)))
      \<or> (ds, n) \<in> set (files_in_subdirs es)"
    by auto
  then show ?case
  proof
    assume "ds = [] \<and> (\<exists>nd. (n, nd) \<in> set es \<and> \<not> is_dir_entry (n, nd))"
    then show ?thesis by (auto dest: not_dir_entry_File intro: file_at.here)
  next
    assume "(ds, n) \<in> set (files_in_subdirs es)"
    then show ?thesis by (rule "1.IH")
  qed
next
  case 2
  then show ?case by simp
next
  case (3 n' b es)
  then have "file_at es ds n" by simp
  then show ?case by (rule file_at_mono) auto
next
  case (4 d ds' es)
  from "4.prems" have "(\<exists>p. ds = d # p \<and> (p, n) \<in> set (files_below ds'))
      \<or> (ds, n) \<in> set (files_in_subdirs es)"
    by auto
  then show ?case
  proof
    assume "\<exists>p. ds = d # p \<and> (p, n) \<in> set (files_below ds')"
    then obtain p where p: "ds = d # p" "(p, n) \<in> set (files_below ds')" by blast
    from p(2) have "file_at ds' p n" by (rule "4.IH")
    then show ?thesis unfolding p(1) by (rule file_at.below [rotated]) simp
  next
    assume "(ds, n) \<in> set (files_in_subdirs es)"
    then have "file_at es ds n" by (rule "4.IH")
    then show ?thesis by (rule file_at_mono) auto
  qed
qed

lemma files_in_subdirs_complete:
  "(d, Dir ds) \<in> set es \<Longrightarrow> (p, n) \<in> set (files_below ds)
     \<Longrightarrow> (d # p, n) \<in> set (files_in_subdirs es)"
proof (induction es)
  case Nil
  then show ?case by simp
next
  case (Cons e es)
  obtain n' nd where e: "e = (n', nd)" by (cases e)
  show ?case
  proof (cases nd)
    case (File b)
    with Cons e show ?thesis by (auto simp del: files_below.simps)
  next
    case (Dir ds')
    with Cons e show ?thesis by (auto simp del: files_below.simps)
  qed
qed

lemma files_below_complete: "file_at es ds n \<Longrightarrow> (ds, n) \<in> set (files_below es)"
proof (induction rule: file_at.induct)
  case (here n b es)
  then have "n \<in> fst ` {e \<in> set es. \<not> is_dir_entry e}" by force
  then show ?case by (simp add: image_iff)
next
  case (below d ds es p n)
  then have "(d # p, n) \<in> set (files_in_subdirs es)"
    by (intro files_in_subdirs_complete)
  then show ?case by simp
qed

lemma set_files_below: "set (files_below es) = {(ds, n). file_at es ds n}"
  using files_below_sound(1) files_below_complete by (auto simp del: files_below.simps)


lemma os_walk_collects:
  assumes "stat w input_dir = Some (Dir es)"
  shows "collect_images (os_walk w input_dir) =
     map (\<lambda>(ds, n). path_join_list input_dir (ds @ [n]))
       (filter (\<lambda>(ds, n). is_supported n) (files_below es))"
  using assms by (simp add: os_walk_def walk_collects(1) del: walk_dir.simps files_below.simps)

lemma os_walk_not_dir:
  assumes "\<forall>es. stat w input_dir \<noteq> Some (Dir es)"
  shows "collect_images (os_walk w input_dir) = []"
  using assms by (auto simp: os_walk_def collect_images_Nil split: option.splits node.splits)

text \<open>
  C7. The list of image files is the list of all regular files below the input
  directory, in walk order, filtered by one test: the suffix of the file name, in lower
  case, is one of \<^verbatim>\<open>.jpg .jpeg .png .bmp .tiff .webp\<close>. Every file that passes is
  in the list and no other file is. \<^verbatim>\<open>IMG.PNG\<close> and \<^verbatim>\<open>img.png\<close> pass,
  \<^verbatim>\<open>b.txt\<close> does not.
\<close>

theorem walker_enumerates_supported_files:
  assumes "stat w input_dir = Some (Dir es)"
  shows "collect_images (os_walk w input_dir) =
           map (\<lambda>(ds, n). path_join_list input_dir (ds @ [n]))
             (filter (\<lambda>(ds, n). lower (path_suffix n) \<in>
                  {''.jpg'', ''.jpeg'', ''.png'', ''.bmp'', ''.tiff'', ''.webp''})
                (files_below es))
       \<and> set (files_below es) = {(ds, n). file_at es ds n}
       \<and> lower (path_suffix ''IMG.PNG'') = ''.png'' \<and> lower (path_suffix ''img.png'') = ''.png''
       \<and> lower (path_suffix ''b.txt'') = ''.txt''"
proof -
  have "is_supported = (\<lambda>n. lower (path_suffix n) \<in>
                  {''.jpg'', ''.jpeg'', ''.png'', ''.bmp'', ''.tiff'', ''.webp''})"
    by (rule ext) (simp add: is_supported_def supported_formats_def)
  moreover have "lower (path_suffix ''IMG.PNG'') = ''.png''" by code_simp
  moreover have "lower (path_suffix ''img.png'') = ''.png''" by code_simp
  moreover have "lower (path_suffix ''b.txt'') = ''.txt''" by code_simp
  ultimately show ?thesis
    using os_walk_collects [OF assms] set_files_below [of es] by simp
qed

theorem walker_enumerates_supported_files_witness:
  "stat ex_world ''in'' = Some (Dir
     [(''a.png'', File ex_image), (''b.txt'', File ''hello''),
      (''sub'', Dir [(''bad.jpg'', File ''IMG''), (''IMG.PNG'', File ex_image)])])
   \<and> collect_images (os_walk ex_world ''in'') = [''in/a.png'', ''in/sub/bad.jpg'', ''in/sub/IMG.PNG'']
   \<and> map (\<lambda>(ds, n). path_join_list ''in'' (ds @ [n]))
             (filter (\<lambda>(ds, n). lower (path_suffix n) \<in>
                  {''.jpg'', ''.jpeg'', ''.png'', ''.bmp'', ''.tiff'', ''.webp''})
                (files_below [(''a.png'', File ex_image), (''b.txt'', File ''hello''),
      (''sub'', Dir [(''bad.jpg'', File ''IMG''), (''IMG.PNG'', File ex_image)])]))
      = [''in/a.png'', ''in/sub/bad.jpg'', ''in/sub/IMG.PNG'']"
proof -
  have a: "stat ex_world ''in'' = Some (Dir
     [(''a.png'', File ex_image), (''b.txt'', File ''hello''),
      (''sub'', Dir [(''bad.jpg'', File ''IMG''), (''IMG.PNG'', File ex_image)])])"
    by code_simp
  have b: "collect_images (os_walk ex_world ''in'') =
      [''in/a.png'', ''in/sub/bad.jpg'', ''in/sub/IMG.PNG'']"
    by code_simp
  show ?thesis
    using a b walker_enumerates_supported_files [OF a] by simp
qed

text \<open>
  C8. When the input directory does not exist, or no file below it has a supported
  suffix, \<^verbatim>\<open>process_directory_high_quality\<close> returns \<open>(0, 0)\<close>, prints one
  message, makes no call of \<^verbatim>\<open>remove_background_high_quality\<close> and leaves the file
  system as it was.
\<close>

theorem empty_batch_does_nothing:
  assumes "\<not> path_exists w input_dir
     \<or> (\<forall>es ds n. stat w input_dir = Some (Dir es) \<and> file_at es ds n \<longrightarrow> \<not> is_supported n)"
  shows "(process_directory_high_quality env input_dir output_dir w =
            (Inr (0, 0), print (''Diretorio nao encontrado: '' @ input_dir) w)
          \<or> process_directory_high_quality env input_dir output_dir w =
            (Inr (0, 0), print (''Nenhuma imagem encontrada em: '' @ input_dir) w))
       \<and> root (snd (process_directory_high_quality env input_dir output_dir w)) = root w
       \<and> directory_trace env input_dir output_dir w = []"
proof -
  have none: "collect_images (os_walk w input_dir) = []"
  proof (cases "\<exists>es. stat w input_dir = Some (Dir es)")
    case True
    then obtain es where es: "stat w input_dir = Some (Dir es)" by blast
    with assms have "\<forall>ds n. file_at es ds n \<longrightarrow> \<not> is_supported n"
      by (auto simp: path_exists_def)
    then have "filter (\<lambda>(ds, n). is_supported n) (files_below es) = []"
      using set_files_below [of es] by (auto simp: filter_empty_conv simp del: files_below.simps)
    with os_walk_collects [OF es] show ?thesis by simp
  next
    case False
    then show ?thesis by (intro os_walk_not_dir) simp
  qed
  show ?thesis
    by (auto simp: process_directory_high_quality_def directory_trace_def none)
qed


theorem empty_batch_does_nothing_witness:
  "\<not> path_exists ex_world ''nope''
   \<and> fst (process_directory_high_quality ex_env ''nope'' ''out'' ex_world) = Inr (0, 0)
   \<and> root (snd (process_directory_high_quality ex_env ''nope'' ''out'' ex_world)) = root ex_world
   \<and> path_exists ex_world ''docs''
   \<and> fst (process_directory_high_quality ex_env ''docs'' ''out'' ex_world) = Inr (0, 0)
   \<and> root (snd (process_directory_high_quality ex_env ''docs'' ''out'' ex_world)) = root ex_world
   \<and> directory_trace ex_env ''docs'' ''out'' ex_world = []"
proof -
  have a: "\<not> path_exists ex_world ''nope''" by code_simp
  have b: "path_exists ex_world ''docs''" by code_simp
  have st: "stat ex_world ''docs'' = Some (Dir [(''b.txt'', File ''hello'')])" by code_simp
  have fb: "files_below [(''b.txt'', File ''hello'')] = [([], ''b.txt'')]" by code_simp
  have ns: "\<not> is_supported ''b.txt''" by code_simp
  have c: "\<forall>es ds n. stat ex_world ''docs'' = Some (Dir es) \<and> file_at es ds n \<longrightarrow> \<not> is_supported n"
  proof (intro allI impI)
    fix es ds n
    assume h: "stat ex_world ''docs'' = Some (Dir es) \<and> file_at es ds n"
    with st have es: "es = [(''b.txt'', File ''hello'')]" by simp
    from h have "(ds, n) \<in> set (files_below es)" by (intro files_below_complete) simp
    with es fb have "n = ''b.txt''" by simp
    with ns show "\<not> is_supported n" by simp
  qed
  show ?thesis
    using a b
      empty_batch_does_nothing [OF disjI1 [OF a], of ex_env "''out''"]
      empty_batch_does_nothing [OF disjI2 [OF c], of ex_env "''out''"]
    by auto
qed

lemma output_file_for_nonempty:
  "img_file \<noteq> [] \<Longrightarrow> \<exists>output_file. output_file_for c input_dir output_dir img_file = Inr output_file"
  by (simp add: output_file_for_def relpath_def Let_def split: list.splits)

lemma successes_Cons [simp]:
  "successes ((f, out_file, ok) # t) = (if ok then Suc (successes t) else successes t)"
  by (simp add: successes_def)

lemma failures_Cons [simp]:
  "failures ((f, out_file, ok) # t) = (if ok then failures t else Suc (failures t))"
  by (simp add: failures_def)

lemma successes_Nil [simp]: "successes [] = 0"
  by (simp add: successes_def)

lemma failures_Nil [simp]: "failures [] = 0"
  by (simp add: failures_def)

lemma successes_failures_length: "successes t + failures t = length t"
  by (induction t) auto

lemma process_loop_trace:
  assumes "\<forall>f \<in> set files. f \<noteq> []"
  shows "fst (process_loop env input_dir output_dir n_files files i (s, fl) w) =
           Inr (s + successes (batch_trace env input_dir output_dir n_files files i w),
                fl + failures (batch_trace env input_dir output_dir n_files files i w))
       \<and> map fst (batch_trace env input_dir output_dir n_files files i w) = files"
  using assms
proof (induction files arbitrary: i s fl w)
  case Nil
  then show ?case by simp
next
  case (Cons f files)
  let ?w1 = "print (''['' @ show_nat i @ ''/'' @ show_nat n_files @ '']'') w"
  from Cons.prems obtain output_file
    where o: "output_file_for (cwd ?w1) input_dir output_dir f = Inr output_file"
    using output_file_for_nonempty [of f "cwd ?w1" input_dir output_dir] by auto
  obtain ok w2
    where r: "remove_background_high_quality env f output_file None None ?w1 = (ok, w2)"
    by (cases "remove_background_high_quality env f output_file None None ?w1")
  from Cons.prems have rest: "\<forall>f \<in> set files. f \<noteq> []" by simp
  show ?case
  proof (cases ok)
    case True
    with o r Cons.IH [OF rest, of "Suc i" "s + 1" fl w2] show ?thesis
      by (simp add: Let_def)
  next
    case False
    with o r Cons.IH [OF rest, of "Suc i" s "fl + 1" w2] show ?thesis
      by (simp add: Let_def)
  qed
qed

lemma path_join_nonempty: "a \<noteq> [] \<Longrightarrow> path_join a b \<noteq> []"
  by (auto simp: path_join_def startswith_sep_def split: list.splits)

lemma path_join_list_nonempty: "a \<noteq> [] \<Longrightarrow> path_join_list a bs \<noteq> []"
  by (induction bs arbitrary: a) (auto simp: path_join_nonempty)

lemma stat_empty: "stat w [] = None"
  by (simp add: stat_def resolve_def)

lemma image_files_nonempty: "\<forall>f \<in> set (collect_images (os_walk w input_dir)). f \<noteq> []"
proof (cases "\<exists>es. stat w input_dir = Some (Dir es)")
  case True
  then obtain es where es: "stat w input_dir = Some (Dir es)" by blast
  then have "input_dir \<noteq> []" using stat_empty [of w] by auto
  then show ?thesis
    unfolding os_walk_collects [OF es]
    by (auto simp: path_join_list_nonempty simp del: files_below.simps)
next
  case False
  then have "collect_images (os_walk w input_dir) = []" by (intro os_walk_not_dir) simp
  then show ?thesis by simp
qed

lemma process_directory_trace:
  "fst (process_directory_high_quality env input_dir output_dir w) =
     Inr (successes (directory_trace env input_dir output_dir w),
          failures (directory_trace env input_dir output_dir w))
   \<and> map fst (directory_trace env input_dir output_dir w) = collect_images (os_walk w input_dir)"
proof (cases "path_exists w input_dir")
  case True
  show ?thesis
    using process_loop_trace [OF image_files_nonempty, where env = env and input_dir = input_dir
        and output_dir = output_dir and i = 1 and s = 0 and fl = 0
        and n_files = "length (collect_images (os_walk w input_dir))"
        and w = "print (''Encontradas '' @ show_nat (length (collect_images (os_walk w input_dir)))
           @ '' imagens'') w"] True
    by (auto simp: process_directory_high_quality_def directory_trace_def Let_def)
next
  case False
  then have "collect_images (os_walk w input_dir) = []"
    by (intro os_walk_not_dir) (simp add: path_exists_def)
  with False show ?thesis
    by (simp add: process_directory_high_quality_def directory_trace_def)
qed

text \<open>
  C2. When one call of the batch fails and \<open>N\<close> calls succeed, the tally is
  \<open>(N, 1)\<close>: the list had \<open>N + 1\<close> files and each of them was processed, in
  order, whatever the position of the failing one.
\<close>

theorem one_failure_does_not_abort_batch:
  assumes "successes (directory_trace env input_dir output_dir w) = N"
    and "failures (directory_trace env input_dir output_dir w) = 1"
  shows "fst (process_directory_high_quality env input_dir output_dir w) = Inr (N, 1)
       \<and> map fst (directory_trace env input_dir output_dir w) = collect_images (os_walk w input_dir)
       \<and> length (collect_images (os_walk w input_dir)) = N + 1"
proof -
  have "length (map fst (directory_trace env input_dir output_dir w)) = N + 1"
    using assms successes_failures_length [of "directory_trace env input_dir output_dir w"]
    by simp
  then show ?thesis
    using assms process_directory_trace [of env input_dir output_dir w] by simp
qed

theorem one_failure_does_not_abort_batch_witness:
  "directory_trace ex_env ''in'' ''out'' ex_world =
     [(''in/a.png'', ''out/a_sem_fundo.png'', True),
      (''in/sub/bad.jpg'', ''out/sub/bad_sem_fundo.png'', False),
      (''in/sub/IMG.PNG'', ''out/sub/IMG_sem_fundo.png'', True)]
   \<and> fst (process_directory_high_quality ex_env ''in'' ''out'' ex_world) = Inr (2, 1)
   \<and> length (collect_images (os_walk ex_world ''in'')) = 2 + 1"
proof -
  have t: "directory_trace ex_env ''in'' ''out'' ex_world =
     [(''in/a.png'', ''out/a_sem_fundo.png'', True),
      (''in/sub/bad.jpg'', ''out/sub/bad_sem_fundo.png'', False),
      (''in/sub/IMG.PNG'', ''out/sub/IMG_sem_fundo.png'', True)]"
    by code_simp
  have s: "successes (directory_trace ex_env ''in'' ''out'' ex_world) = 2" by (simp add: t)
  have f: "failures (directory_trace ex_env ''in'' ''out'' ex_world) = 1" by (simp add: t)
  show ?thesis
    using t one_failure_does_not_abort_batch [OF s f] by simp
qed

text \<open>
  C10. The list of image files is built from the world as it is before the first call.
  The calls of the batch are made on exactly the files of that list, in order, and the
  two counters add up to its length. Files written during the batch are not in it, even
  when the output directory lies inside the input directory.
\<close>

theorem batch_processes_prebuilt_list:
  "\<exists>success_count fail_count.
     fst (process_directory_high_quality env input_dir output_dir w) =
       Inr (success_count, fail_count)
     \<and> success_count + fail_count = length (collect_images (os_walk w input_dir))
     \<and> success_count = successes (directory_trace env input_dir output_dir w)
     \<and> fail_count = failures (directory_trace env input_dir output_dir w)
     \<and> map fst (directory_trace env input_dir output_dir w) = collect_images (os_walk w input_dir)"
proof -
  have "length (map fst (directory_trace env input_dir output_dir w)) =
      successes (directory_trace env input_dir output_dir w)
      + failures (directory_trace env input_dir output_dir w)"
    by (simp add: successes_failures_length)
  then show ?thesis
    using process_directory_trace [of env input_dir output_dir w] by simp
qed


theorem batch_processes_prebuilt_list_witness:
  "collect_images (os_walk ex_world ''in'') = [''in/a.png'', ''in/sub/bad.jpg'', ''in/sub/IMG.PNG'']
   \<and> fst (process_directory_high_quality ex_env ''in'' ''in/out'' ex_world) = Inr (2, 1)
   \<and> map fst (directory_trace ex_env ''in'' ''in/out'' ex_world) =
       [''in/a.png'', ''in/sub/bad.jpg'', ''in/sub/IMG.PNG'']
   \<and> collect_images
       (os_walk (snd (process_directory_high_quality ex_env ''in'' ''in/out'' ex_world)) ''in'') =
       [''in/a.png'', ''in/sub/bad.jpg'', ''in/sub/IMG.PNG'',
        ''in/out/a_sem_fundo.png'', ''in/out/sub/IMG_sem_fundo.png'']"
proof -
  have a: "collect_images (os_walk ex_world ''in'') =
      [''in/a.png'', ''in/sub/bad.jpg'', ''in/sub/IMG.PNG'']"
    by code_simp
  have b: "successes (directory_trace ex_env ''in'' ''in/out'' ex_world) = 2
      \<and> failures (directory_trace ex_env ''in'' ''in/out'' ex_world) = 1"
    by code_simp
  have c: "collect_images
       (os_walk (snd (process_directory_high_quality ex_env ''in'' ''in/out'' ex_world)) ''in'') =
       [''in/a.png'', ''in/sub/bad.jpg'', ''in/sub/IMG.PNG'',
        ''in/out/a_sem_fundo.png'', ''in/out/sub/IMG_sem_fundo.png'']"
    by code_simp
  show ?thesis
    using a b c batch_processes_prebuilt_list [of ex_env "''in''" "''in/out''" ex_world]
    by auto
qed

subsection \<open>The output path\<close>

lemma split_sep_nonempty: "split_sep a \<noteq> []"
  by (induction a) (auto split: list.splits)

lemma split_sep_append: "split_sep (a @ sep # b) = split_sep a @ split_sep b"
proof (induction a)
  case Nil
  then show ?case by simp
next
  case (Cons c a)
  then show ?case
    using split_sep_nonempty [of a] by (cases "split_sep a") auto
qed

lemma split_sep_plain: "sep \<notin> set x \<Longrightarrow> split_sep x = [x]"
  by (induction x) auto

lemma norm_comps_append: "norm_comps acc (xs @ ys) = norm_comps (norm_comps acc xs) ys"
  by (induction xs arbitrary: acc) auto

lemma norm_comps_proper: "\<forall>y \<in> set ys. proper_name y \<Longrightarrow> norm_comps acc ys = acc @ ys"
  by (induction ys arbitrary: acc) (auto simp: proper_name_def)

lemma proper_not_startswith: "proper_name x \<Longrightarrow> \<not> startswith_sep x"
  by (cases x) (auto simp: proper_name_def startswith_sep_def)

lemma startswith_sep_append: "d \<noteq> [] \<Longrightarrow> startswith_sep (d @ x) = startswith_sep d"
  by (cases d) (auto simp: startswith_sep_def)

lemma abs_comps_join:
  assumes "proper_name x"
  shows "abs_comps c (path_join d x) = abs_comps c d @ [x]"
proof -
  have nx: "sep \<notin> set x" and ns: "\<not> startswith_sep x"
    using assms proper_not_startswith by (auto simp: proper_name_def)
  have px: "\<forall>y \<in> set [x]. proper_name y" using assms by simp
  have n0: "norm_comps acc [[]] = acc" for acc by simp
  show ?thesis
  proof (cases "d = []")
    case True
    then show ?thesis
      using ns by (simp add: path_join_def abs_comps_def split_sep_plain [OF nx]
          norm_comps_append norm_comps_proper [OF px] startswith_sep_def n0
          del: norm_comps.simps)
  next
    case False
    show ?thesis
    proof (cases "endswith_sep d")
      case True
      then have "last d = sep" by (simp add: endswith_sep_def)
      with append_butlast_last_id [OF False] obtain d' where d: "d = d' @ [sep]" by metis
      have "split_sep (d @ x) = split_sep d' @ [x]"
        using split_sep_append [of d' x] by (simp add: d split_sep_plain [OF nx])
      moreover have "split_sep d = split_sep d' @ [[]]"
        using split_sep_append [of d' "[]"] by (simp add: d)
      ultimately show ?thesis
        using ns True False
        by (simp add: path_join_def abs_comps_def startswith_sep_append
            norm_comps_append norm_comps_proper [OF px] n0
            del: split_sep.simps norm_comps.simps)
    next
      case nend: False
      have "split_sep (d @ sep # x) = split_sep d @ [x]"
        by (simp add: split_sep_append split_sep_plain [OF nx])
      then show ?thesis
        using ns nend False startswith_sep_append [OF False, of "sep # x"]
        by (simp add: path_join_def abs_comps_def
            norm_comps_append norm_comps_proper [OF px] n0
            del: split_sep.simps norm_comps.simps)
    qed
  qed
qed

lemma abs_comps_join_list:
  "\<forall>x \<in> set xs. proper_name x \<Longrightarrow> abs_comps c (path_join_list d xs) = abs_comps c d @ xs"
  by (induction xs arbitrary: d) (auto simp: abs_comps_join)

lemma commonprefix_append: "commonprefix xs (xs @ ys) = xs"
  by (induction xs) auto


lemma path_join_nonempty_right: "b \<noteq> [] \<Longrightarrow> path_join a b \<noteq> []"
  by (auto simp: path_join_def startswith_sep_def split: list.splits)

lemma path_join_list_nonempty_names:
  "bs \<noteq> [] \<Longrightarrow> \<forall>b \<in> set bs. b \<noteq> [] \<Longrightarrow> path_join_list a bs \<noteq> []"
  by (cases bs) (auto simp: path_join_nonempty_right path_join_list_nonempty)

lemma relpath_join_list:
  assumes "\<forall>x \<in> set xs. proper_name x" and "xs \<noteq> []"
  shows "relpath c (path_join_list d xs) d = Inr (path_join_list (hd xs) (tl xs))"
proof -
  have "path_join_list d xs \<noteq> []"
    using assms by (intro path_join_list_nonempty_names) (auto simp: proper_name_def)
  then have "relpath c (path_join_list d xs) d =
      (case xs of [] \<Rightarrow> Inr ''.'' | r # rs \<Rightarrow> Inr (path_join_list r rs))"
    by (simp add: relpath_def Let_def abs_comps_join_list [OF assms(1)] commonprefix_append)
  then show ?thesis
    using assms(2) by (cases xs) simp_all
qed

lemma path_join_list_proper:
  "a \<noteq> [] \<Longrightarrow> last a \<noteq> sep \<Longrightarrow> \<forall>b \<in> set bs. proper_name b
     \<Longrightarrow> path_join_list a bs = a @ concat (map ((#) sep) bs)"
proof (induction bs arbitrary: a)
  case Nil
  then show ?case by simp
next
  case (Cons b bs)
  then have b: "b \<noteq> []" "sep \<notin> set b" "\<not> startswith_sep b"
    using proper_not_startswith [of b] by (auto simp: proper_name_def)
  have j: "path_join a b = a @ sep # b"
    using Cons.prems b by (simp add: path_join_def endswith_sep_def)
  have "last (a @ sep # b) \<noteq> sep" using b by (auto dest: last_in_set)
  then show ?case
    using Cons.IH [of "a @ sep # b"] Cons.prems by (simp add: j)
qed

lemma concat_sep_shift: "x @ concat (map ((#) sep) (xs @ [n])) = rel_prefix (x # xs) @ n"
  by (induction xs arbitrary: x) (auto simp: rel_prefix_def)

lemma rel_path_proper:
  assumes "\<forall>d \<in> set ds. proper_name d" and "proper_name n"
  shows "path_join_list (hd (ds @ [n])) (tl (ds @ [n])) = rel_prefix ds @ n"
proof (cases ds)
  case Nil
  then show ?thesis by (simp add: rel_prefix_def)
next
  case (Cons d ds')
  then have d: "d \<noteq> []" "last d \<noteq> sep"
    using assms(1) by (auto simp: proper_name_def dest: last_in_set)
  have "\<forall>b \<in> set (ds' @ [n]). proper_name b" using assms Cons by simp
  then have "path_join_list d (ds' @ [n]) = rel_prefix (d # ds') @ n"
    by (simp only: path_join_list_proper [OF d] concat_sep_shift)
  then show ?thesis
    by (simp add: Cons)
qed

lemma sep_join_Cons: "ys \<noteq> [] \<Longrightarrow> sep_join (x # ys) = x @ sep # sep_join ys"
  by (cases ys) simp_all

lemma sep_join_snoc: "sep_join (ds @ [m]) = rel_prefix ds @ m"
  by (induction ds) (simp_all add: rel_prefix_def sep_join_Cons)

lemma rel_prefix_not_startswith:
  assumes "\<forall>d \<in> set ds. proper_name d" and "\<not> startswith_sep m" and "m \<noteq> []"
  shows "\<not> startswith_sep (rel_prefix ds @ m)"
proof (cases ds)
  case Nil
  then show ?thesis using assms by (simp add: rel_prefix_def)
next
  case (Cons d ds')
  then have "proper_name d" using assms by simp
  then show ?thesis
    using Cons by (cases d) (auto simp: rel_prefix_def startswith_sep_def proper_name_def)
qed

lemma path_join_rel:
  assumes "\<forall>d \<in> set ds. proper_name d" and "\<not> startswith_sep m" and "m \<noteq> []"
  shows "path_join output_dir (rel_prefix ds @ m) = join_prefix output_dir ds @ m"
  using rel_prefix_not_startswith [OF assms]
  by (simp add: path_join_def join_prefix_def)

lemma join_prefix_ends: "join_prefix output_dir ds = [] \<or> last (join_prefix output_dir ds) = sep"
proof (cases ds rule: rev_cases)
  case Nil
  then show ?thesis by (auto simp: join_prefix_def rel_prefix_def endswith_sep_def)
next
  case (snoc ds' d)
  then show ?thesis by (simp add: join_prefix_def rel_prefix_def)
qed

lemma upto_after: "upto_last c p @ after_last c p = p"
  unfolding upto_last_def after_last_def
  by (metis rev_append rev_rev_ident takeWhile_dropWhile_id)

lemma upto_last_ends: "c \<in> set p \<Longrightarrow> upto_last c p \<noteq> [] \<and> last (upto_last c p) = c"
proof -
  assume "c \<in> set p"
  then have ne: "dropWhile (\<lambda>x. x \<noteq> c) (rev p) \<noteq> []" by (simp add: dropWhile_eq_Nil_conv)
  then have "hd (dropWhile (\<lambda>x. x \<noteq> c) (rev p)) = c"
    using hd_dropWhile [of "\<lambda>x. x \<noteq> c" "rev p"] by simp
  with ne show ?thesis by (simp add: upto_last_def last_rev)
qed

lemma after_last_suffix:
  assumes "P = [] \<or> last P = sep" and "sep \<notin> set n"
  shows "after_last sep (P @ n) = n"
proof -
  have "takeWhile (\<lambda>x. x \<noteq> sep) (rev P) = []"
    using assms(1) by (cases P rule: rev_cases) auto
  moreover have "takeWhile (\<lambda>x. x \<noteq> sep) (rev n @ rev P) =
      rev n @ takeWhile (\<lambda>x. x \<noteq> sep) (rev P)"
    by (rule takeWhile_append2) (use assms(2) in auto)
  ultimately show ?thesis
    by (simp add: after_last_def)
qed

lemma splitext_suffix:
  assumes "P = [] \<or> last P = sep" and "sep \<notin> set n" and "dot \<in> set n"
  shows "fst (splitext (P @ n)) =
           (if \<exists>c \<in> set (butlast (upto_last dot n)). c \<noteq> dot
            then P @ butlast (upto_last dot n) else P @ n)"
proof -
  obtain u where u: "upto_last dot n = u @ [dot]"
    using upto_last_ends [OF assms(3)] by (metis append_butlast_last_id)
  have n: "n = u @ dot # after_last dot n"
    using upto_after [of dot n] u by simp
  have "length n = Suc (length u + length (after_last dot n))"
    by (subst n) simp
  then have "take (length (P @ n) - Suc (length (after_last dot n))) (P @ n) = P @ u"
    by (subst (2) n) simp
  then show ?thesis
    using assms(3) by (simp add: splitext_def Let_def after_last_suffix [OF assms(1,2)] u)
qed


lemma set_upto_last: "set (upto_last c p) \<subseteq> set p"
  by (auto simp: upto_last_def dest: set_dropWhileD)

lemma stem_chars: "set (path_stem n) \<subseteq> set n"
  using set_upto_last [of dot n] by (auto simp: path_stem_def dest: in_set_butlastD)

lemma suffix_tag_not_startswith:
  assumes "sep \<notin> set m"
  shows "\<not> startswith_sep (m @ ''_sem_fundo.png'')"
  using assms by (cases m) (auto simp: startswith_sep_def sep_def)

lemma join_names:
  assumes "\<forall>d \<in> set ds. proper_name d" and "sep \<notin> set m"
  shows "path_join output_dir (sep_join (ds @ [m @ ''_sem_fundo.png''])) =
           join_prefix output_dir ds @ m @ ''_sem_fundo.png''"
  using path_join_rel [OF assms(1) suffix_tag_not_startswith [OF assms(2)]]
  by (simp add: sep_join_snoc)

lemma output_file_for_proper:
  assumes ds: "\<forall>d \<in> set ds. proper_name d" and n: "proper_name n" and sfx: "path_suffix n \<noteq> []"
  shows "output_file_for c input_dir output_dir (path_join_list input_dir (ds @ [n])) =
           Inr (join_prefix output_dir ds
                 @ (if \<exists>x \<in> set (path_stem n). x \<noteq> dot then path_stem n else n)
                 @ ''_sem_fundo.png'')"
proof -
  have all: "\<forall>x \<in> set (ds @ [n]). proper_name x" using ds n by simp
  have nsep: "sep \<notin> set n" and nne: "n \<noteq> []" using n by (auto simp: proper_name_def)
  from sfx have dt: "dot \<in> set n" and stem: "path_stem n = butlast (upto_last dot n)"
    by (auto simp: path_suffix_def path_stem_def split: if_splits)
  have rel: "relpath c (path_join_list input_dir (ds @ [n])) input_dir = Inr (rel_prefix ds @ n)"
    using relpath_join_list [OF all, of c input_dir] rel_path_proper [OF ds n] by simp
  have j: "path_join output_dir (rel_prefix ds @ n) = join_prefix output_dir ds @ n"
    by (rule path_join_rel [OF ds proper_not_startswith [OF n] nne])
  show ?thesis
    using splitext_suffix [OF join_prefix_ends nsep dt, of output_dir ds]
    by (simp add: output_file_for_def rel j stem)
qed

lemma wf_entries_member:
  "wf_entries es \<Longrightarrow> (n, nd) \<in> set es
     \<Longrightarrow> proper_name n \<and> (case nd of File b \<Rightarrow> True | Dir ds \<Rightarrow> wf_entries ds)"
  by (induction es rule: wf_entries.induct) auto

lemma wf_file_at:
  "file_at es ds n \<Longrightarrow> wf_entries es \<Longrightarrow> (\<forall>d \<in> set ds. proper_name d) \<and> proper_name n"
proof (induction rule: file_at.induct)
  case (here n b es)
  then show ?case using wf_entries_member [of es n "File b"] by simp
next
  case (below d ds es p n)
  then show ?case using wf_entries_member [of es d "Dir ds"] by simp
qed

lemma supported_has_suffix: "is_supported n \<Longrightarrow> path_suffix n \<noteq> []"
  by (auto simp: is_supported_def supported_formats_def lower_def)


lemma map_of_replace:
  "map_of (map (\<lambda>(k, v). if k = c then (k, n) else (k, v)) es) x =
     (if x = c then (if c \<in> fst ` set es then Some n else None) else map_of es x)"
  by (induction es) (auto simp: rev_image_eqI)

lemma map_of_upd_entry: "map_of (upd_entry c n es) = (map_of es)(c \<mapsto> n)"
proof (cases "c \<in> fst ` set es")
  case True
  then show ?thesis by (auto simp: upd_entry_def map_of_replace fun_eq_iff)
next
  case False
  then have "map_of es c = None" by (simp add: map_of_eq_None_iff)
  then show ?thesis
    using False by (auto simp: upd_entry_def fun_eq_iff map_add_def split: option.splits)
qed

lemma is_dir_at_Nil [simp]: "is_dir_at r []"
  by (simp add: is_dir_at_def)

lemma is_dir_at_Cons:
  "is_dir_at r (p # ps) = (\<exists>ds. map_of r p = Some (Dir ds) \<and> is_dir_at ds ps)"
  by (cases "map_of r p"; cases "the (map_of r p)") (auto simp: is_dir_at_def)

lemma put_Cons:
  "cs \<noteq> [] \<Longrightarrow> put es (c # cs) n =
     (case map_of es c of Some (Dir ds) \<Rightarrow> upd_entry c (Dir (put ds cs n)) es | _ \<Rightarrow> es)"
  by (cases cs) (simp_all split: option.splits node.splits)

lemma lookup_file_parent: "lookup r (ps @ [c]) = Some (File b) \<Longrightarrow> is_dir_at r ps"
proof (induction ps arbitrary: r)
  case Nil
  then show ?case by simp
next
  case (Cons p ps)
  then show ?case
    by (auto simp: is_dir_at_Cons split: option.splits node.splits if_splits)
qed

lemma lookup_put_file:
  "is_dir_at r ps \<Longrightarrow> lookup (put r (ps @ [c]) (File b)) (ps @ [c]) = Some (File b)"
proof (induction ps arbitrary: r)
  case Nil
  then show ?case by (simp add: map_of_upd_entry)
next
  case (Cons p ps)
  then obtain ds where ds: "map_of r p = Some (Dir ds)" "is_dir_at ds ps"
    by (auto simp: is_dir_at_Cons)
  then show ?case
    using Cons.IH [OF ds(2)] by (simp add: put_Cons map_of_upd_entry)
qed

lemma is_dir_at_put_file:
  "lookup r (ps @ [c]) = None \<or> (\<exists>b'. lookup r (ps @ [c]) = Some (File b'))
     \<Longrightarrow> is_dir_at (put r (ps @ [c]) (File b)) xs = is_dir_at r xs"
proof (induction ps arbitrary: r xs)
  case Nil
  then show ?case
    by (cases xs) (auto simp: is_dir_at_Cons map_of_upd_entry split: option.splits node.splits)
next
  case (Cons p ps)
  show ?case
  proof (cases "\<exists>ds. map_of r p = Some (Dir ds)")
    case True
    then obtain ds where ds: "map_of r p = Some (Dir ds)" by blast
    with Cons.prems have "lookup ds (ps @ [c]) = None \<or> (\<exists>b'. lookup ds (ps @ [c]) = Some (File b'))"
      by simp
    then have ih: "is_dir_at (put ds (ps @ [c]) (File b)) ys = is_dir_at ds ys" for ys
      by (rule Cons.IH)
    show ?thesis
      using ds ih by (cases xs) (auto simp: put_Cons is_dir_at_Cons map_of_upd_entry)
  next
    case False
    then show ?thesis
      by (auto simp: put_Cons split: option.splits node.splits)
  qed
qed

lemma walk_comps_cong:
  "(\<And>xs. is_dir_at r' xs = is_dir_at r xs) \<Longrightarrow> walk_comps r' cur cs = walk_comps r cur cs"
  by (induction cs arbitrary: cur) auto


lemma resolve_put_file:
  assumes "lookup (root w) (ps @ [c]) = None \<or> (\<exists>b'. lookup (root w) (ps @ [c]) = Some (File b'))"
  shows "resolve (w\<lparr>root := put (root w) (ps @ [c]) (File b)\<rparr>) p = resolve w p"
  using walk_comps_cong [of "put (root w) (ps @ [c]) (File b)" "root w", OF is_dir_at_put_file [OF assms]]
  by (simp add: resolve_def)

lemma stat_put_file:
  assumes "resolve w p = Some (ps @ [c])" and "is_dir_at (root w) ps"
    and "lookup (root w) (ps @ [c]) = None \<or> (\<exists>b'. lookup (root w) (ps @ [c]) = Some (File b'))"
  shows "stat (w\<lparr>root := put (root w) (ps @ [c]) (File b)\<rparr>) p = Some (File b)"
  using assms(1) lookup_put_file [OF assms(2)] resolve_put_file [OF assms(3), of b p]
  by (simp add: stat_def)

lemma open_write_ok:
  assumes "open_write p w = (Inr cs, w1)"
  shows "\<exists>ps c. cs = ps @ [c] \<and> resolve w p = Some cs \<and> is_dir_at (root w) ps
           \<and> (lookup (root w) cs = None \<or> (\<exists>b'. lookup (root w) cs = Some (File b')))
           \<and> w1 = w\<lparr>root := put (root w) cs (File [])\<rparr>"
proof -
  from assms obtain cs' where r: "resolve w p = Some cs'"
    by (auto simp: open_write_def split: option.splits)
  show ?thesis
  proof (cases "lookup (root w) cs'")
    case None
    with assms r have c: "cs' \<noteq> []" "is_dir_at (root w) (butlast cs')" "cs = cs'"
      "w1 = w\<lparr>root := put (root w) cs (File [])\<rparr>"
      by (auto simp: open_write_def split: if_splits)
    then have "cs = butlast cs @ [last cs]" by simp
    with c None r show ?thesis by metis
  next
    case (Some nd)
    with assms r obtain b0 where b0: "nd = File b0"
      by (cases nd) (auto simp: open_write_def)
    with assms r Some have c: "cs = cs'" "w1 = w\<lparr>root := put (root w) cs (File [])\<rparr>"
      by (auto simp: open_write_def)
    have "cs' \<noteq> []" using Some b0 by (cases cs') auto
    then have e: "cs' = butlast cs' @ [last cs']" by simp
    then have "is_dir_at (root w) (butlast cs')"
      using lookup_file_parent [of "root w" "butlast cs'" "last cs'" b0] Some b0 by simp
    with c e Some b0 r show ?thesis by metis
  qed
qed

lemma image_save_path_ok:
  assumes "image_save_path env img p w = (Inr u, w')"
  shows "\<exists>bs. image_save_png env True img = Inr bs \<and> stat w' p = Some (File bs)"
proof -
  from assms obtain cs w1 where ow: "open_write p w = (Inr cs, w1)"
    by (auto simp: image_save_path_def Let_def split: prod.splits sum.splits)
  with assms obtain bs where bs: "image_save_png env True img = Inr bs"
    and w': "w' = w1\<lparr>root := put (root w1) cs (File bs)\<rparr>"
    by (auto simp: image_save_path_def Let_def split: sum.splits)
  from open_write_ok [OF ow] obtain ps c where
    cs: "cs = ps @ [c]" and r: "resolve w p = Some cs" and d: "is_dir_at (root w) ps"
    and l: "lookup (root w) (ps @ [c]) = None \<or> (\<exists>b'. lookup (root w) (ps @ [c]) = Some (File b'))"
    and w1: "w1 = w\<lparr>root := put (root w) cs (File [])\<rparr>"
    by auto
  have r1: "resolve w1 p = Some (ps @ [c])"
    using resolve_put_file [OF l, of "[]" p] r by (simp add: w1 cs)
  have d1: "is_dir_at (root w1) ps"
    using is_dir_at_put_file [OF l, of "[]" ps] d by (simp add: w1 cs)
  have l1: "lookup (root w1) (ps @ [c]) = None
      \<or> (\<exists>b'. lookup (root w1) (ps @ [c]) = Some (File b'))"
    using lookup_put_file [OF d, of c "[]"] by (simp add: w1 cs)
  from stat_put_file [OF r1 d1 l1, of bs] bs show ?thesis
    by (auto simp: w' cs)
qed

lemma remove_background_image_rgba:
  assumes "remove_background_image env p m a w = Inr img"
  shows "\<exists>decoded. image_convert env ''RGBA'' decoded = Inr img"
  using assms unfolding remove_background_image_def bind_exn_Inr_iff by blast

lemma successful_run_writes_png:
  assumes "fst (remove_background_high_quality env input_path output_path model_name alpha_matting w)"
  shows "\<exists>decoded img bs. image_convert env ''RGBA'' decoded = Inr img
           \<and> image_save_png env True img = Inr bs
           \<and> stat (snd (remove_background_high_quality env input_path output_path model_name
                          alpha_matting w)) output_path = Some (File bs)"
proof -
  let ?m = "case model_name of None \<Rightarrow> default_model_name | Some m \<Rightarrow> m"
  let ?a = "case alpha_matting of None \<Rightarrow> default_alpha_matting | Some a \<Rightarrow> a"
  let ?w2 = "print (''Processando com qualidade: '' @ input_path) w"
  from assms obtain img u w3 w4 where
    i: "remove_background_image env input_path ?m ?a ?w2 = Inr img"
    and m: "makedirs (dirname output_path) ?w2 = (Inr u, w3)"
    and s: "image_save_path env img output_path w3 = (Inr u, w4)"
    and r: "snd (remove_background_high_quality env input_path output_path model_name
                  alpha_matting w) = print (''Salvo: '' @ output_path) w4"
    by (auto simp: remove_background_high_quality_def remove_background_try_def Let_def
        write_output_def split: prod.splits sum.splits if_splits)
  from image_save_path_ok [OF s] remove_background_image_rgba [OF i] show ?thesis
    by (auto simp: r)
qed

text \<open>
  C3 (the code fails it on some names). A supported file \<open>n\<close> in the subdirectory
  \<open>ds\<close> of a well-formed input directory is in the list of image files, and its
  output file is
  \<^verbatim>\<open><output_root>/<relative_dir>/<basename_without_ext>_sem_fundo.png\<close> whenever a
  character other than a dot comes before the last dot of its name. Otherwise, as for
  \<^verbatim>\<open>..png\<close>, \<^verbatim>\<open>os.path.splitext\<close> finds no extension: the suffix that
  \<^verbatim>\<open>Path(file).suffix\<close> matched stays in the output name. A successful call writes,
  at its output path, the PNG encoding of an image converted to RGBA.
\<close>

theorem output_path_of_enumerated_file:
  assumes "stat w input_dir = Some (Dir es)" and "wf_entries es"
    and "file_at es ds n" and "is_supported n"
  shows "path_join_list input_dir (ds @ [n]) \<in> set (collect_images (os_walk w input_dir))
       \<and> output_file_for c input_dir output_dir (path_join_list input_dir (ds @ [n])) =
           Inr (if \<exists>x \<in> set (path_stem n). x \<noteq> dot
                then spec_output_path output_dir ds n
                else path_join output_dir (sep_join (ds @ [n @ ''_sem_fundo.png''])))
       \<and> (\<forall>output_file w1.
             fst (remove_background_high_quality env (path_join_list input_dir (ds @ [n]))
                    output_file None None w1) \<longrightarrow>
             (\<exists>decoded img bs. image_convert env ''RGBA'' decoded = Inr img
                \<and> image_save_png env True img = Inr bs
                \<and> stat (snd (remove_background_high_quality env
                               (path_join_list input_dir (ds @ [n])) output_file None None w1))
                     output_file = Some (File bs)))"
proof -
  from wf_file_at [OF assms(3,2)]
  have ds: "\<forall>d \<in> set ds. proper_name d" and n: "proper_name n" by simp_all
  then have nsep: "sep \<notin> set n" by (simp add: proper_name_def)
  then have ssep: "sep \<notin> set (path_stem n)" using stem_chars [of n] by auto
  have "(ds, n) \<in> set (filter (\<lambda>(ds, n). is_supported n) (files_below es))"
    using files_below_complete [OF assms(3)] assms(4) by (simp del: files_below.simps)
  then have "path_join_list input_dir (ds @ [n]) \<in> set (collect_images (os_walk w input_dir))"
    unfolding os_walk_collects [OF assms(1)] by force
  moreover have "output_file_for c input_dir output_dir (path_join_list input_dir (ds @ [n])) =
           Inr (if \<exists>x \<in> set (path_stem n). x \<noteq> dot
                then spec_output_path output_dir ds n
                else path_join output_dir (sep_join (ds @ [n @ ''_sem_fundo.png''])))"
    using output_file_for_proper [OF ds n supported_has_suffix [OF assms(4)], of c input_dir output_dir]
    by (simp add: spec_output_path_def join_names [OF ds ssep] join_names [OF ds nsep])
  ultimately show ?thesis
    using successful_run_writes_png by blast
qed

theorem output_path_of_enumerated_file_witness:
  "(path_join_list ''dots'' ([] @ [''..png'']) \<in> set (collect_images (os_walk ex_world ''dots''))
    \<and> output_file_for (cwd ex_world) ''dots'' ''out'' (path_join_list ''dots'' ([] @ [''..png''])) =
        Inr (if \<exists>x \<in> set (path_stem ''..png''). x \<noteq> dot
             then spec_output_path ''out'' [] ''..png''
             else path_join ''out'' (sep_join ([] @ [''..png'' @ ''_sem_fundo.png'']))))
   \<and> (path_join_list ''dots'' ([] @ [''..png'']) = ''dots/..png''
      \<and> path_suffix ''..png'' = ''.png''
      \<and> \<not> (\<exists>x \<in> set (path_stem ''..png''). x \<noteq> dot)
      \<and> output_file_for (cwd ex_world) ''dots'' ''out'' ''dots/..png'' = Inr ''out/..png_sem_fundo.png''
      \<and> spec_output_path ''out'' [] ''..png'' = ''out/._sem_fundo.png''
      \<and> directory_trace ex_env ''dots'' ''out'' ex_world =
          [(''dots/..png'', ''out/..png_sem_fundo.png'', True)]
      \<and> stat (snd (process_directory_high_quality ex_env ''dots'' ''out'' ex_world))
          ''out/..png_sem_fundo.png'' = Some (File ex_image)
      \<and> stat (snd (process_directory_high_quality ex_env ''dots'' ''out'' ex_world))
          ''out/._sem_fundo.png'' = None
      \<and> output_file_for (cwd ex_world) ''in'' ''out'' ''in/sub/IMG.PNG'' =
          Inr (spec_output_path ''out'' [''sub''] ''IMG.PNG'')
      \<and> spec_output_path ''out'' [''sub''] ''IMG.PNG'' = ''out/sub/IMG_sem_fundo.png'')"
proof -
  have st: "stat ex_world ''dots'' = Some (Dir [(''..png'', File ex_image)])" by code_simp
  have wf: "wf_entries [(''..png'', File ex_image)]" by code_simp
  have fa: "file_at [(''..png'', File ex_image)] [] ''..png''" by (rule file_at.here) simp
  have su: "is_supported ''..png''" by code_simp
  have ev: "path_join_list ''dots'' ([] @ [''..png'']) = ''dots/..png''
      \<and> path_suffix ''..png'' = ''.png''
      \<and> \<not> (\<exists>x \<in> set (path_stem ''..png''). x \<noteq> dot)
      \<and> output_file_for (cwd ex_world) ''dots'' ''out'' ''dots/..png'' = Inr ''out/..png_sem_fundo.png''
      \<and> spec_output_path ''out'' [] ''..png'' = ''out/._sem_fundo.png''
      \<and> directory_trace ex_env ''dots'' ''out'' ex_world =
          [(''dots/..png'', ''out/..png_sem_fundo.png'', True)]
      \<and> stat (snd (process_directory_high_quality ex_env ''dots'' ''out'' ex_world))
          ''out/..png_sem_fundo.png'' = Some (File ex_image)
      \<and> stat (snd (process_directory_high_quality ex_env ''dots'' ''out'' ex_world))
          ''out/._sem_fundo.png'' = None
      \<and> output_file_for (cwd ex_world) ''in'' ''out'' ''in/sub/IMG.PNG'' =
          Inr (spec_output_path ''out'' [''sub''] ''IMG.PNG'')
      \<and> spec_output_path ''out'' [''sub''] ''IMG.PNG'' = ''out/sub/IMG_sem_fundo.png''"
    by code_simp
  from output_path_of_enumerated_file [OF st wf fa su, of "cwd ex_world" "''out''" ex_env]
  have "path_join_list ''dots'' ([] @ [''..png'']) \<in> set (collect_images (os_walk ex_world ''dots''))
    \<and> output_file_for (cwd ex_world) ''dots'' ''out'' (path_join_list ''dots'' ([] @ [''..png''])) =
        Inr (if \<exists>x \<in> set (path_stem ''..png''). x \<noteq> dot
             then spec_output_path ''out'' [] ''..png''
             else path_join ''out'' (sep_join ([] @ [''..png'' @ ''_sem_fundo.png''])))"
    by blast
  with ev show ?thesis by blast
qed

end
